theory Spec2Isabelle
  imports Complex_Main
begin

section \<open>Values shared by the two copies of the component\<close>

text \<open>
  The repository holds two copies of the same React application: the refactored
  \<^verbatim>\<open>src/components/ImageUploader.jsx\<close> and a second, longer file whose name is not
  known (called the second copy below, definitions suffixed \<open>_part000\<close>). Where the
  two copies have the same code, one definition stands for both.

  JavaScript strings are modelled as \<^typ>\<open>string\<close> (code units below 256), numbers as
  exact reals (the rounding of IEEE doubles is not modelled), exceptions as values.
\<close>

datatype js_error =
    TypeError string
  | ReferenceError string
  | InvalidCharacterError
  | SyntaxError

text \<open>A \<^verbatim>\<open>File\<close>: its name, its (normalised) type and its bytes; \<^verbatim>\<open>size\<close> is the
  number of bytes.\<close>

record js_file =
  file_name :: string
  file_type :: string
  file_bytes :: "nat list"

definition file_size :: "js_file \<Rightarrow> nat" where
  "file_size f = length (file_bytes f)"

text \<open>The File API stores the \<^verbatim>\<open>type\<close> option in lower case, and stores the empty
  string when it holds a character outside U+0020..U+007E.\<close>

definition ascii_lower :: "char \<Rightarrow> char" where
  "ascii_lower c =
     (let n = (of_char c :: nat) in if 65 \<le> n \<and> n \<le> 90 then char_of (n + 32) else c)"

definition blob_type :: "string \<Rightarrow> string" where
  "blob_type t =
     (if list_ex (\<lambda>c. (of_char c :: nat) < 32 \<or> 126 < (of_char c :: nat)) t then []
      else map ascii_lower t)"

definition new_File :: "nat list \<Rightarrow> string \<Rightarrow> string \<Rightarrow> js_file" where
  "new_File bits fileName t =
     \<lparr>file_name = fileName, file_type = blob_type t, file_bytes = bits\<rparr>"

section \<open>base64ToFile\<close>

text \<open>\<^verbatim>\<open>base64.split(',')\<close>: the pieces between the commas; never an empty array.\<close>

fun split_on :: "char \<Rightarrow> string \<Rightarrow> string list" where
  "split_on c [] = [] # []"
| "split_on c (x # xs) =
     (if x = c then [] # split_on c xs
      else (case split_on c xs of [] \<Rightarrow> [x] # [] | y # ys \<Rightarrow> (x # y) # ys))"

text \<open>\<^verbatim>\<open>arr[0].match(/:(.*?);/)\<close>: the leftmost colon that is followed, before any line
  terminator, by a semicolon; the group is the text between that colon and the first such
  semicolon. \<open>None\<close> is \<^verbatim>\<open>null\<close>.\<close>

definition line_terminator :: "char \<Rightarrow> bool" where
  "line_terminator c = (c = CHR 0x0A \<or> c = CHR 0x0D)"

fun lazy_group :: "string \<Rightarrow> string option" where
  "lazy_group [] = None"
| "lazy_group (c # cs) =
     (if c = CHR '';'' then Some []
      else if line_terminator c then None
      else map_option ((#) c) (lazy_group cs))"

fun match_mime :: "string \<Rightarrow> string option" where
  "match_mime [] = None"
| "match_mime (c # cs) =
     (if c = CHR '':'' then (case lazy_group cs of Some m \<Rightarrow> Some m | None \<Rightarrow> match_mime cs)
      else match_mime cs)"

text \<open>\<^verbatim>\<open>atob\<close> is the forgiving-base64 decode of the platform: ASCII whitespace is
  dropped; when the length is a multiple of four, one or two trailing \<^verbatim>\<open>=\<close> are dropped;
  a length of 1 modulo 4, or a character outside the alphabet, is an
  \<^verbatim>\<open>InvalidCharacterError\<close> (\<open>None\<close>). The result is a binary string.\<close>

definition ascii_whitespace :: "char \<Rightarrow> bool" where
  "ascii_whitespace c =
     (c = CHR 0x09 \<or> c = CHR 0x0A \<or> c = CHR 0x0C \<or> c = CHR 0x0D \<or> c = CHR 0x20)"

definition b64_index :: "char \<Rightarrow> nat option" where
  "b64_index c =
     (let n = (of_char c :: nat) in
      if 65 \<le> n \<and> n \<le> 90 then Some (n - 65)
      else if 97 \<le> n \<and> n \<le> 122 then Some (n - 71)
      else if 48 \<le> n \<and> n \<le> 57 then Some (n + 4)
      else if n = 43 then Some 62
      else if n = 47 then Some 63
      else None)"

fun strip_padding_rev :: "string \<Rightarrow> string" where
  "strip_padding_rev (a # b # r) =
     (if a = CHR ''='' then (if b = CHR ''='' then r else b # r) else a # b # r)"
| "strip_padding_rev r = r"

definition strip_padding :: "string \<Rightarrow> string" where
  "strip_padding d = rev (strip_padding_rev (rev d))"

fun decode_sextets :: "nat list \<Rightarrow> nat list" where
  "decode_sextets (a # b # c # d # rest) =
     (a * 4 + b div 16) # ((b mod 16) * 16 + c div 4) # ((c mod 4) * 64 + d) # decode_sextets rest"
| "decode_sextets [a, b, c] = [a * 4 + b div 16, (b mod 16) * 16 + c div 4]"
| "decode_sextets [a, b] = [a * 4 + b div 16]"
| "decode_sextets _ = []"

definition atob :: "string \<Rightarrow> string option" where
  "atob data =
     (let d1 = filter (\<lambda>c. \<not> ascii_whitespace c) data;
          d2 = (if length d1 mod 4 = 0 then strip_padding d1 else d1)
      in if length d2 mod 4 = 1 then None
         else (case those (map b64_index d2) of
                 None \<Rightarrow> None
               | Some vs \<Rightarrow> Some (map char_of (decode_sextets vs))))"

text \<open>The copying loop \<^verbatim>\<open>while (n--) { u8arr[n] = bstr.charCodeAt(n); }\<close>: \<open>n\<close> counts
  down from the length of the binary string, every index it writes is in range, and a
  \<^verbatim>\<open>Uint8Array\<close> keeps a value modulo 256.\<close>

fun copy_loop :: "string \<Rightarrow> nat \<Rightarrow> nat list \<Rightarrow> nat list" where
  "copy_loop bstr 0 u8arr = u8arr"
| "copy_loop bstr (Suc n) u8arr = copy_loop bstr n (u8arr[n := (of_char (bstr ! n) :: nat) mod 256])"

text \<open>\<^verbatim>\<open>arr[1]\<close> is \<^verbatim>\<open>undefined\<close> when the string has no comma, and \<^verbatim>\<open>atob\<close> then
  receives the text \<^verbatim>\<open>undefined\<close>. \<^verbatim>\<open>null[1]\<close> is a \<^verbatim>\<open>TypeError\<close>.\<close>

definition base64ToFile :: "string \<Rightarrow> string \<Rightarrow> js_error + js_file" where
  "base64ToFile base64 fileName =
     (case split_on CHR '','' base64 of
        [] \<Rightarrow> Inl (TypeError ''arr[0] is undefined'')
      | arr0 # rest \<Rightarrow>
          (case match_mime arr0 of
             None \<Rightarrow> Inl (TypeError ''null has no property 1'')
           | Some mime \<Rightarrow>
               (case atob (case rest of [] \<Rightarrow> ''undefined'' | arr1 # _ \<Rightarrow> arr1) of
                  None \<Rightarrow> Inl InvalidCharacterError
                | Some bstr \<Rightarrow>
                    Inr (new_File (copy_loop bstr (length bstr) (replicate (length bstr) 0))
                           fileName mime))))"

text \<open>Two descriptions used in the statements about the decoder: the text before the
  first comma, and the text between the first and the second comma.\<close>

definition header_of :: "string \<Rightarrow> string" where
  "header_of s = takeWhile (\<lambda>c. c \<noteq> CHR '','') s"

definition payload_of :: "string \<Rightarrow> string" where
  "payload_of s = takeWhile (\<lambda>c. c \<noteq> CHR '','') (drop (Suc (length (header_of s))) s)"


text \<open>The shape the specification names, \<^verbatim>\<open>data:<mime>;base64,<valid base64>\<close>, written
  from its words: the prefix \<^verbatim>\<open>data:\<close>, later the marker \<^verbatim>\<open>;base64,\<close>, and after the
  marker a text that \<^verbatim>\<open>atob\<close> accepts.\<close>

definition data_url_shape :: "string \<Rightarrow> bool" where
  "data_url_shape s =
     (take 5 s = ''data:'' \<and>
      list_ex (\<lambda>i. take 8 (drop i s) = '';base64,'' \<and> atob (drop (i + 8) s) \<noteq> None)
        [5..<length s])"


section \<open>The form and the upload adapter (component App)\<close>

subsection \<open>Notifications and the validation predicate\<close>

datatype notice =
    Message_error string
  | Notification_info string string
  | Notification_success string string
  | Notification_error string string

definition starts_with :: "string \<Rightarrow> string \<Rightarrow> bool" where
  "starts_with p s = (take (length p) s = p)"

text \<open>\<^verbatim>\<open>beforeUpload\<close>: the notifications it raises and the boolean it returns. The second
  copy computes the same two tests into \<^verbatim>\<open>isImage\<close> and \<^verbatim>\<open>isLt2M\<close> and returns their
  conjunction, which is true where it is reached.\<close>

definition beforeUpload :: "js_file \<Rightarrow> notice list \<times> bool" where
  "beforeUpload f =
     (if \<not> starts_with ''image/'' (file_type f)
      then ([Message_error ''You can only upload image files!''], False)
      else if real (file_size f) / 1024 / 1024 \<ge> 2
      then ([Notification_error ''File Too Large'' ''Image must be smaller than 2MB!''], False)
      else ([], True))"

subsection \<open>State\<close>

text \<open>What the upload widget may hand over as \<^verbatim>\<open>info.file\<close> or
  \<^verbatim>\<open>info.file.originFileObj\<close>: a \<^verbatim>\<open>File\<close>, a string, or an object that is not a
  \<^verbatim>\<open>Blob\<close>.\<close>

datatype js_value = FileObj js_file | StrVal string | PlainObj

fun truthy :: "js_value \<Rightarrow> bool" where
  "truthy (FileObj f) = True"
| "truthy (StrVal s) = (s \<noteq> [])"
| "truthy PlainObj = True"

record upload_info =
  info_status :: "string option"
  info_originFileObj :: "js_value option"
  info_file :: js_value

text \<open>The value of a form field: untouched, \<^verbatim>\<open>null\<close>, or a text.\<close>

datatype field_value = Undefined | Null | Text string

datatype part = TextPart string | BinaryPart js_file

type_synonym form_data = "(string \<times> part) list"

text \<open>An object with string keys is an association list in insertion order;
  \<^verbatim>\<open>{...prev, [k]: v}\<close> overwrites the key in place or adds it at the end.\<close>

fun obj_set :: "string \<Rightarrow> 'v \<Rightarrow> (string \<times> 'v) list \<Rightarrow> (string \<times> 'v) list" where
  "obj_set k v [] = [(k, v)]"
| "obj_set k v (e # r) = (if fst e = k then (k, v) # r else e # obj_set k v r)"

text \<open>The state of \<^verbatim>\<open>App\<close>: the form store, the four \<^verbatim>\<open>useState\<close> cells the claims
  speak of, the busy flag, the notifications raised so far, the request bodies sent so
  far, and the \<^verbatim>\<open>FileReader\<close>s that are still reading (slot and file), whose \<^verbatim>\<open>load\<close>
  callback has not run yet.\<close>

record app =
  form :: "(string \<times> field_value) list"
  fileList :: "(string \<times> js_value) list"
  imagePreviews :: "(string \<times> string) list"
  loading :: bool
  showCamera :: bool
  currentCameraField :: "string option"
  notices :: "notice list"
  sent :: "form_data list"
  readers :: "(string \<times> js_file) list"

definition init_app :: "(string \<times> field_value) list \<Rightarrow> app" where
  "init_app fs =
     \<lparr>form = fs, fileList = [], imagePreviews = [], loading = False, showCamera = False,
      currentCameraField = None, notices = [], sent = [], readers = []\<rparr>"

subsection \<open>Previews\<close>

text \<open>\<^verbatim>\<open>reader.result\<close> after \<^verbatim>\<open>readAsDataURL(file)\<close>: the data URL of the file, its bytes
  in base64.\<close>

definition b64_char :: "nat \<Rightarrow> char" where
  "b64_char n =
     (''ABCDEFGHIJKLMNOPQRSTUVWXYZabcdefghijklmnopqrstuvwxyz0123456789+/'') ! (n mod 64)"

fun btoa_bytes :: "nat list \<Rightarrow> string" where
  "btoa_bytes (a # b # c # rest) =
     b64_char (a div 4) # b64_char ((a mod 4) * 16 + b div 16) #
     b64_char ((b mod 16) * 4 + c div 64) # b64_char (c mod 64) # btoa_bytes rest"
| "btoa_bytes [a, b] =
     [b64_char (a div 4), b64_char ((a mod 4) * 16 + b div 16), b64_char ((b mod 16) * 4),
      CHR ''='']"
| "btoa_bytes [a] = [b64_char (a div 4), b64_char ((a mod 4) * 16), CHR ''='', CHR ''='']"
| "btoa_bytes [] = []"

definition readAsDataURL :: "js_file \<Rightarrow> string" where
  "readAsDataURL f =
     ''data:'' @ (if file_type f = [] then ''application/octet-stream'' else file_type f) @
     '';base64,'' @ btoa_bytes (file_bytes f)"

text \<open>\<^verbatim>\<open>getBase64(img, callback)\<close>: \<^verbatim>\<open>readAsDataURL\<close> throws a \<^verbatim>\<open>TypeError\<close> at once when
  its argument is not a \<^verbatim>\<open>Blob\<close>; otherwise the reader starts and the callback runs
  later, on \<^verbatim>\<open>load\<close>. The callback written at both call sites sets the preview of the
  slot the file was staged for.\<close>

definition getBase64 :: "string \<Rightarrow> js_value \<Rightarrow> app \<Rightarrow> app \<times> js_error option" where
  "getBase64 slot img st =
     (case img of
        FileObj f \<Rightarrow> (st\<lparr>readers := readers st @ [(slot, f)]\<rparr>, None)
      | _ \<Rightarrow> (st, Some (TypeError ''readAsDataURL: argument is not a Blob'')))"

text \<open>The \<^verbatim>\<open>load\<close> event of the \<open>i\<close>-th reader still reading: its callback
  \<^verbatim>\<open>url => setImagePreviews(prev => ({ ...prev, [slot]: url }))\<close> runs and the reader is
  done. Nothing orders the \<^verbatim>\<open>load\<close> events of different readers.\<close>

definition reader_loaded :: "nat \<Rightarrow> app \<Rightarrow> app" where
  "reader_loaded i st =
     (if i < length (readers st)
      then (case readers st ! i of
              (slot, f) \<Rightarrow>
                st\<lparr>imagePreviews := obj_set slot (readAsDataURL f) (imagePreviews st),
                   readers := take i (readers st) @ drop (Suc i) (readers st)\<rparr>)
      else st)"

text \<open>The \<open>i\<close>-th reader still reading ends in \<^verbatim>\<open>error\<close> or \<^verbatim>\<open>abort\<close> instead (the file
  was moved, changed or became unreadable after it was picked). \<^verbatim>\<open>getBase64\<close> registers a
  listener for \<^verbatim>\<open>load\<close> only, so no callback runs: the reader is done and the preview of
  its slot stays as it was.\<close>

definition reader_failed :: "nat \<Rightarrow> app \<Rightarrow> app" where
  "reader_failed i st =
     (if i < length (readers st)
      then st\<lparr>readers := take i (readers st) @ drop (Suc i) (readers st)\<rparr>
      else st)"

subsection \<open>handleFileChange\<close>

text \<open>A number in a template string: its decimal digits.\<close>

definition digit :: "nat \<Rightarrow> char" where
  "digit d = ''0123456789'' ! d"

fun show_nat :: "nat \<Rightarrow> string" where
  "show_nat n = (if n < 10 then [digit n] else show_nat (n div 10) @ [digit (n mod 10)])"

declare show_nat.simps [simp del]

text \<open>\<^verbatim>\<open>info.file.originFileObj || info.file\<close>\<close>

definition picked :: "upload_info \<Rightarrow> js_value" where
  "picked info =
     (case info_originFileObj info of
        Some v \<Rightarrow> (if truthy v then v else info_file info)
      | None \<Rightarrow> info_file info)"

text \<open>The part the two copies share: a string that starts with \<^verbatim>\<open>data:\<close> is decoded
  (an exception of the decoder leaves the handler before any state is set), the value is
  staged under the slot, and its preview is requested.\<close>

definition stage_picked :: "string \<Rightarrow> upload_info \<Rightarrow> nat \<Rightarrow> app \<Rightarrow> app \<times> js_error option" where
  "stage_picked fieldName info now st =
     (case (case picked info of
              StrVal s \<Rightarrow>
                (if starts_with ''data:'' s
                 then map_sum id FileObj (base64ToFile s (fieldName @ ''-'' @ show_nat now @ ''.jpg''))
                 else Inr (StrVal s))
            | v \<Rightarrow> Inr v) of
        Inl e \<Rightarrow> (st, Some e)
      | Inr file \<Rightarrow> getBase64 fieldName file (st\<lparr>fileList := obj_set fieldName file (fileList st)\<rparr>))"

text \<open>\<^verbatim>\<open>handleFileChange\<close> of \<^verbatim>\<open>components/ImageUploader.jsx\<close>. After the test of
  the status it calls \<^verbatim>\<open>validateFile\<close>; the first argument below is what that name is
  bound to where the handler runs (\<open>None\<close>: bound to nothing, and evaluating the call is
  a \<^verbatim>\<open>ReferenceError\<close>).\<close>

definition handleFileChange_bound ::
  "(js_value \<Rightarrow> notice list \<times> bool) option \<Rightarrow>
   string \<Rightarrow> upload_info \<Rightarrow> nat \<Rightarrow> app \<Rightarrow> app \<times> js_error option" where
  "handleFileChange_bound binding fieldName info now st =
     (if info_status info = Some ''uploading'' then (st, None)
      else (case binding of
              None \<Rightarrow> (st, Some (ReferenceError ''validateFile is not defined''))
            | Some validate \<Rightarrow>
                (case validate (picked info) of
                   (ns, valid) \<Rightarrow>
                     (if \<not> valid then (st\<lparr>notices := notices st @ ns\<rparr>, None)
                      else stage_picked fieldName info now (st\<lparr>notices := notices st @ ns\<rparr>)))))"

text \<open>No declaration and no import in either source file binds \<^verbatim>\<open>validateFile\<close>: the
  validator is declared as \<^verbatim>\<open>beforeUpload\<close>, nothing calls it, and the \<^verbatim>\<open>beforeUpload\<close>
  property of the upload widget is \<^verbatim>\<open>() => false\<close>.\<close>

definition validateFile :: "(js_value \<Rightarrow> notice list \<times> bool) option" where
  "validateFile = None"

definition handleFileChange :: "string \<Rightarrow> upload_info \<Rightarrow> nat \<Rightarrow> app \<Rightarrow> app \<times> js_error option" where
  "handleFileChange = handleFileChange_bound validateFile"

text \<open>The declared validator as a binding for that name, for comparison: what the handler
  would do had the call named \<^verbatim>\<open>beforeUpload\<close>.\<close>

definition beforeUpload_binding :: "(js_value \<Rightarrow> notice list \<times> bool) option" where
  "beforeUpload_binding =
     Some (\<lambda>v. case v of FileObj f \<Rightarrow> beforeUpload f | _ \<Rightarrow> ([], False))"

text \<open>The second copy has no validation step.\<close>

definition handleFileChange_part000 ::
  "string \<Rightarrow> upload_info \<Rightarrow> nat \<Rightarrow> app \<Rightarrow> app \<times> js_error option" where
  "handleFileChange_part000 fieldName info now st =
     (if info_status info \<noteq> Some ''uploading'' then stage_picked fieldName info now st
      else (st, None))"

subsection \<open>The camera hand-over\<close>

definition openCamera :: "string \<Rightarrow> app \<Rightarrow> app" where
  "openCamera fieldName st = st\<lparr>currentCameraField := Some fieldName, showCamera := True\<rparr>"

definition handleCameraCapture :: "js_file \<Rightarrow> app \<Rightarrow> app" where
  "handleCameraCapture f st =
     (let st1 = (case currentCameraField st of
                   None \<Rightarrow> st
                 | Some slot \<Rightarrow>
                     (if slot = [] then st
                      else fst (getBase64 slot (FileObj f)
                                  (st\<lparr>fileList := obj_set slot (FileObj f) (fileList st)\<rparr>))))
      in st1\<lparr>showCamera := False, currentCameraField := None\<rparr>)"

definition closeCamera :: "app \<Rightarrow> app" where
  "closeCamera st = st\<lparr>showCamera := False, currentCameraField := None\<rparr>"

subsection \<open>handleSubmit\<close>

text \<open>The two \<^verbatim>\<open>forEach\<close> loops that fill the \<^verbatim>\<open>FormData\<close>. \<^verbatim>\<open>append\<close> adds a \<^verbatim>\<open>File\<close> as
  a binary part and anything else as its text.\<close>

definition append_field :: "form_data \<Rightarrow> string \<times> field_value \<Rightarrow> form_data" where
  "append_field fd e =
     (case snd e of
        Undefined \<Rightarrow> fd
      | Null \<Rightarrow> fd
      | Text s \<Rightarrow> (if s \<noteq> [] then fd @ [(fst e, TextPart s)] else fd))"

fun part_of :: "js_value \<Rightarrow> part" where
  "part_of (FileObj f) = BinaryPart f"
| "part_of (StrVal s) = TextPart s"
| "part_of PlainObj = TextPart ''[object Object]''"

definition append_file :: "form_data \<Rightarrow> string \<times> js_value \<Rightarrow> form_data" where
  "append_file fd e = (if truthy (snd e) then fd @ [(fst e, part_of (snd e))] else fd)"

definition assemble :: "(string \<times> field_value) list \<Rightarrow> (string \<times> js_value) list \<Rightarrow> form_data" where
  "assemble values files = foldl append_file (foldl append_field [] values) files"

text \<open>What the awaited \<^verbatim>\<open>fetch\<close> gives: a rejection with a message (possibly empty), or a
  response. The second copy also awaits \<^verbatim>\<open>response.json()\<close> and \<^verbatim>\<open>response.text()\<close>; the
  response records what each of these yields at the point where that copy awaits it.\<close>

datatype awaited = Resolves | Rejects string

record response =
  resp_ok :: bool
  resp_status :: nat
  resp_json :: awaited
  resp_text :: awaited

datatype fetched = Rejected string | Responded response

text \<open>\<^verbatim>\<open>form.resetFields()\<close>: no initial values are configured, so every field goes back
  to \<^verbatim>\<open>undefined\<close>.\<close>

definition resetFields :: "(string \<times> field_value) list \<Rightarrow> (string \<times> field_value) list" where
  "resetFields fs = map (\<lambda>e. (fst e, Undefined)) fs"

definition notify :: "notice \<Rightarrow> app \<Rightarrow> app" where
  "notify n st = st\<lparr>notices := notices st @ [n]\<rparr>"

definition error_message :: "string \<Rightarrow> string \<Rightarrow> string" where
  "error_message m fallback = (if m \<noteq> [] then m else fallback)"

definition handleSubmit :: "(string \<times> field_value) list \<Rightarrow> fetched \<Rightarrow> app \<Rightarrow> app" where
  "handleSubmit values result st =
     (let st1 = notify (Notification_info ''Submitting...'' ''Submitting update...'')
                  (st\<lparr>loading := True\<rparr>);
          st2 = st1\<lparr>sent := sent st1 @ [assemble values (fileList st)]\<rparr>;
          st3 = (case result of
                   Responded r \<Rightarrow>
                     (if resp_ok r
                      then (notify (Notification_success ''Success'' ''Order updated successfully!'') st2)
                             \<lparr>form := resetFields (form st2), fileList := [], imagePreviews := []\<rparr>
                      else notify (Notification_error ''Update Failed''
                             (''Failed to update order (Status: '' @ show_nat (resp_status r) @ '').'')) st2)
                 | Rejected m \<Rightarrow>
                     notify (Notification_error ''Error''
                       (''Update failed: '' @ error_message m ''Unknown error'')) st2)
      in st3\<lparr>loading := False\<rparr>)"

text \<open>The second copy reads the body of the response before it goes on: on success
  \<^verbatim>\<open>response.json()\<close> and, when that rejects, \<^verbatim>\<open>response.text()\<close> inside the inner
  \<^verbatim>\<open>catch\<close>; otherwise \<^verbatim>\<open>response.text()\<close>. A rejection of \<^verbatim>\<open>response.text()\<close> is caught by
  the outer \<^verbatim>\<open>catch\<close>.\<close>

definition handleSubmit_part000 :: "(string \<times> field_value) list \<Rightarrow> fetched \<Rightarrow> app \<Rightarrow> app" where
  "handleSubmit_part000 values result st =
     (let st1 = notify (Notification_info ''Submitting...'' ''Submitting update...'')
                  (st\<lparr>loading := True\<rparr>);
          st2 = st1\<lparr>sent := sent st1 @ [assemble values (fileList st)]\<rparr>;
          outer_catch = (\<lambda>m. notify (Notification_error ''Error''
                           (''Update failed: '' @ error_message m ''Unknown error occurred'')) st2);
          success = (notify (Notification_success ''Success'' ''Order updated successfully!'') st2)
                       \<lparr>form := resetFields (form st2), fileList := [], imagePreviews := []\<rparr>;
          st3 = (case result of
                   Responded r \<Rightarrow>
                     (if resp_ok r
                      then (case resp_json r of
                              Resolves \<Rightarrow> success
                            | Rejects _ \<Rightarrow>
                                (case resp_text r of
                                   Resolves \<Rightarrow> success
                                 | Rejects m \<Rightarrow> outer_catch m))
                      else (case resp_text r of
                              Resolves \<Rightarrow>
                                notify (Notification_error ''Update Failed''
                                  (''Failed to update order (Status: '' @ show_nat (resp_status r) @
                                   ''). Please check your data and try again.'')) st2
                            | Rejects m \<Rightarrow> outer_catch m))
                 | Rejected m \<Rightarrow> outer_catch m)
      in st3\<lparr>loading := False\<rparr>)"

subsection \<open>Descriptions used in the statements about the form\<close>

text \<open>A field is kept when its value is not \<^verbatim>\<open>undefined\<close>, not \<^verbatim>\<open>null\<close> and not the empty
  string.\<close>

fun field_kept :: "field_value \<Rightarrow> bool" where
  "field_kept Undefined = False"
| "field_kept Null = False"
| "field_kept (Text s) = (s \<noteq> [])"

fun field_text :: "field_value \<Rightarrow> string" where
  "field_text (Text s) = s"
| "field_text _ = []"

fun is_file :: "js_value \<Rightarrow> bool" where
  "is_file (FileObj f) = True"
| "is_file _ = False"

fun is_binary :: "part \<Rightarrow> bool" where
  "is_binary (BinaryPart f) = True"
| "is_binary _ = False"

text \<open>A preview agrees with the staged binary of its slot when it is the data URL of the
  file staged there; a state is consistent when every preview it holds does.\<close>

definition preview_agrees :: "app \<Rightarrow> string \<times> string \<Rightarrow> bool" where
  "preview_agrees st e =
     (case map_of (fileList st) (fst e) of
        Some (FileObj f) \<Rightarrow> snd e = readAsDataURL f
      | _ \<Rightarrow> False)"

definition consistent :: "app \<Rightarrow> bool" where
  "consistent st = list_all (preview_agrees st) (imagePreviews st)"

subsection \<open>Events of the form, in the order they are handled\<close>

text \<open>The two copies differ in \<^verbatim>\<open>handleFileChange\<close> and \<^verbatim>\<open>handleSubmit\<close> only.\<close>

datatype source_copy = Refactored | Second

datatype app_event =
    FileChange string upload_info nat
  | OpenCamera string
  | CameraCapture js_file
  | CloseCamera
  | ReaderLoaded nat
  | ReaderFailed nat
  | Submit "(string \<times> field_value) list" fetched

fun step :: "source_copy \<Rightarrow> app_event \<Rightarrow> app \<Rightarrow> app" where
  "step Refactored (FileChange k info now) st = fst (handleFileChange k info now st)"
| "step Second (FileChange k info now) st = fst (handleFileChange_part000 k info now st)"
| "step c (OpenCamera k) st = openCamera k st"
| "step c (CameraCapture f) st = handleCameraCapture f st"
| "step c CloseCamera st = closeCamera st"
| "step c (ReaderLoaded i) st = reader_loaded i st"
| "step c (ReaderFailed i) st = reader_failed i st"
| "step Refactored (Submit vs r) st = handleSubmit vs r st"
| "step Second (Submit vs r) st = handleSubmit_part000 vs r st"

definition run :: "source_copy \<Rightarrow> app_event list \<Rightarrow> app \<Rightarrow> app" where
  "run c evs st = foldl (\<lambda>s e. step c e s) st evs"

text \<open>An orderly history: every reader ends in \<^verbatim>\<open>load\<close>, the readers finish in the order
  they were started, the form is not reset while a reader is still reading, and the
  upload widget hands over a \<^verbatim>\<open>File\<close> or a data URL.\<close>

fun orderly_event :: "app \<Rightarrow> app_event \<Rightarrow> bool" where
  "orderly_event st (ReaderLoaded i) = (i = 0)"
| "orderly_event st (ReaderFailed i) = False"
| "orderly_event st (Submit vs (Responded r)) = (\<not> resp_ok r \<or> readers st = [])"
| "orderly_event st (FileChange k info now) =
     (case picked info of
        FileObj f \<Rightarrow> True
      | StrVal s \<Rightarrow> starts_with ''data:'' s
      | PlainObj \<Rightarrow> False)"
| "orderly_event st e = True"

fun orderly :: "source_copy \<Rightarrow> app \<Rightarrow> app_event list \<Rightarrow> bool" where
  "orderly c st [] = True"
| "orderly c st (e # es) = (orderly_event st e \<and> orderly c (step c e st) es)"

text \<open>The previews as they will be once the readers still reading have finished in the
  order they were started, and the invariant that these agree with the staged files.\<close>

definition settled_previews ::
  "(string \<times> string) list \<Rightarrow> (string \<times> js_file) list \<Rightarrow> string \<Rightarrow> string option" where
  "settled_previews pv rd =
     foldl (\<lambda>m e. m(fst e \<mapsto> readAsDataURL (snd e))) (map_of pv) rd"

definition agreeing ::
  "(string \<times> js_value) list \<Rightarrow> (string \<times> string) list \<Rightarrow> (string \<times> js_file) list \<Rightarrow> bool" where
  "agreeing fl pv rd =
     (distinct (map fst pv) \<and>
      (\<forall>k u. settled_previews pv rd k = Some u \<longrightarrow>
         (\<exists>f. map_of fl k = Some (FileObj f) \<and> u = readAsDataURL f)))"

text \<open>What one orderly event does to the staged files, the previews and the readers: it
  leaves them, stages a file and starts its reader, finishes the oldest reader, or empties
  all of them when no reader is reading.\<close>

definition core :: "app \<Rightarrow> (string \<times> js_value) list \<times> (string \<times> string) list \<times> (string \<times> js_file) list" where
  "core st = (fileList st, imagePreviews st, readers st)"

definition moves :: "app \<Rightarrow> app \<Rightarrow> bool" where
  "moves st st' =
     (core st' = core st \<or>
      (\<exists>k f. core st' = (obj_set k (FileObj f) (fileList st), imagePreviews st, readers st @ [(k, f)])) \<or>
      (\<exists>k f rd. readers st = (k, f) # rd \<and>
         core st' = (fileList st, obj_set k (readAsDataURL f) (imagePreviews st), rd)) \<or>
      (readers st = [] \<and> core st' = ([], [], [])))"


section \<open>The capture flow (component CnicCamera)\<close>

subsection \<open>The video element, the canvas and the camera tracks\<close>

type_synonym track = nat

text \<open>What the code reads from the \<^verbatim>\<open>video\<close> element. \<^verbatim>\<open>srcObject\<close> is the attached stream,
  given by its tracks. \<^verbatim>\<open>videoWidth\<close> and \<^verbatim>\<open>videoHeight\<close> are optional because
  \<^verbatim>\<open>components/ImageUploader.jsx\<close> reads them with a destructuring default, which applies
  to \<^verbatim>\<open>undefined\<close> only.\<close>

record video =
  srcObject :: "track list option"
  readyState :: nat
  videoWidth :: "nat option"
  videoHeight :: "nat option"
  clientWidth :: nat
  clientHeight :: nat

definition HAVE_ENOUGH_DATA :: nat where
  "HAVE_ENOUGH_DATA = 4"

text \<open>The nine arguments of one \<^verbatim>\<open>drawImage\<close> call: the source rectangle in the frame and
  the destination rectangle on the canvas.\<close>

record draw_call =
  sx :: real
  sy :: real
  sWidth :: real
  sHeight :: real
  dx :: real
  dy :: real
  dWidth :: real
  dHeight :: real

record canvas =
  width :: nat
  height :: nat
  painted :: "draw_call option"

text \<open>An encoded still, as \<^verbatim>\<open>toDataURL\<close> and \<^verbatim>\<open>toBlob\<close> produce it: the format and quality
  asked for, and the canvas that was encoded.\<close>

record image =
  img_type :: string
  img_quality :: real
  img_width :: nat
  img_height :: nat
  img_painted :: "draw_call option"

definition encode :: "canvas \<Rightarrow> string \<Rightarrow> real \<Rightarrow> image" where
  "encode c t q =
     \<lparr>img_type = t, img_quality = q, img_width = width c, img_height = height c,
      img_painted = painted c\<rparr>"

datatype timer_fn = StartCamera | CaptureImage

datatype effect =
    Stopped track
  | Closed
  | Captured js_file
  | Message string

text \<open>The state of the component: its four \<^verbatim>\<open>useState\<close> cells, its two refs, the timers
  and \<^verbatim>\<open>toBlob\<close> requests it has pending, the camera tracks that are live (acquired and
  not stopped), and what it has done to the outside, in order: tracks stopped, the
  closure signal \<^verbatim>\<open>onClose()\<close>, a file handed to \<^verbatim>\<open>onCapture\<close>, an error message.\<close>

record camera =
  isStreaming :: bool
  cam_error :: "string option"
  capturedImage :: "image option"
  showPreview :: bool
  videoRef :: "video option"
  canvasRef :: "canvas option"
  timers :: "(timer_fn \<times> nat) list"
  blob_requests :: "image list"
  live :: "track list"
  effects :: "effect list"

subsection \<open>Rendering\<close>

text \<open>The \<^verbatim>\<open>video\<close> element is rendered only in the camera view, that is when \<^verbatim>\<open>error\<close> is
  null and \<^verbatim>\<open>showPreview\<close> is false; the error view and the preview view do not contain
  it. The library sets the ref of an element to \<^verbatim>\<open>null\<close> when the element leaves the
  page, and to the new element when one is rendered; a new element has no stream. The
  canvas is rendered in every view. \<open>commit\<close> is the re-rendering that follows a handler
  that has set state.\<close>

definition new_video :: video where
  "new_video =
     \<lparr>srcObject = None, readyState = 0, videoWidth = Some 0, videoHeight = Some 0,
      clientWidth = 0, clientHeight = 0\<rparr>"

definition commit :: "camera \<Rightarrow> camera" where
  "commit st =
     (if cam_error st = None \<and> \<not> showPreview st
      then (case videoRef st of None \<Rightarrow> st\<lparr>videoRef := Some new_video\<rparr> | Some v \<Rightarrow> st)
      else st\<lparr>videoRef := None\<rparr>)"

definition mounted :: camera where
  "mounted =
     commit \<lparr>isStreaming = False, cam_error = None, capturedImage = None, showPreview = False,
             videoRef = None, canvasRef = Some \<lparr>width = 300, height = 150, painted = None\<rparr>,
             timers = [], blob_requests = [], live = [], effects = []\<rparr>"

text \<open>The browser, not the component, decides what the rendered video element reports:
  its readiness, the size of its frames and its size on the page.\<close>

definition video_reports :: "nat \<Rightarrow> nat \<Rightarrow> nat \<Rightarrow> nat \<Rightarrow> nat \<Rightarrow> camera \<Rightarrow> camera" where
  "video_reports rs vw vh cw ch st =
     st\<lparr>videoRef := map_option
           (\<lambda>v. v\<lparr>readyState := rs, videoWidth := Some vw, videoHeight := Some vh,
                  clientWidth := cw, clientHeight := ch\<rparr>) (videoRef st)\<rparr>"

text \<open>The views the component renders, from its flags.\<close>

datatype flow_state = Initializing | Streaming | Failed | Previewing

definition flow_state_of :: "camera \<Rightarrow> flow_state" where
  "flow_state_of st =
     (if cam_error st \<noteq> None then Failed
      else if showPreview st then Previewing
      else if isStreaming st then Streaming
      else Initializing)"

subsection \<open>startCamera and stopCamera\<close>

text \<open>\<^verbatim>\<open>getTracks().forEach(track => track.stop())\<close>\<close>

definition stop_track :: "camera \<Rightarrow> track \<Rightarrow> camera" where
  "stop_track st t = st\<lparr>live := removeAll t (live st), effects := effects st @ [Stopped t]\<rparr>"

definition stop_tracks :: "track list \<Rightarrow> camera \<Rightarrow> camera" where
  "stop_tracks ts st = foldl stop_track st ts"

text \<open>\<^verbatim>\<open>stopCamera\<close>, the same in both copies: it acts only when the ref holds a video
  element with a stream attached.\<close>

definition stopCamera :: "camera \<Rightarrow> camera" where
  "stopCamera st =
     (case videoRef st of
        None \<Rightarrow> st
      | Some v \<Rightarrow>
          (case srcObject v of
             None \<Rightarrow> st
           | Some ts \<Rightarrow>
               (stop_tracks ts st)\<lparr>videoRef := Some (v\<lparr>srcObject := None\<rparr>), isStreaming := False\<rparr>))"

text \<open>\<^verbatim>\<open>startCamera\<close> up to its \<^verbatim>\<open>await\<close>. In \<^verbatim>\<open>components/ImageUploader.jsx\<close> it clears the
  error and the streaming flag and stops a stream attached to the current video
  element; in the second copy it only clears the error.\<close>

definition startCamera :: "camera \<Rightarrow> camera" where
  "startCamera st =
     (let st1 = st\<lparr>cam_error := None, isStreaming := False\<rparr>;
          st2 = (case videoRef st1 of
                   None \<Rightarrow> st1
                 | Some v \<Rightarrow>
                     (case srcObject v of
                        None \<Rightarrow> st1
                      | Some ts \<Rightarrow> (stop_tracks ts st1)\<lparr>videoRef := Some (v\<lparr>srcObject := None\<rparr>)\<rparr>))
      in commit st2)"

definition startCamera_part000 :: "camera \<Rightarrow> camera" where
  "startCamera_part000 st = commit (st\<lparr>cam_error := None\<rparr>)"

text \<open>\<^verbatim>\<open>getUserMedia\<close> resolves with a stream of fresh, live tracks: it is attached if the
  ref holds a video element, and otherwise dropped as it is. Or it rejects. Both copies
  agree here.\<close>

definition stream_resolved :: "track list \<Rightarrow> camera \<Rightarrow> camera" where
  "stream_resolved ts st =
     st\<lparr>live := live st @ ts,
        videoRef := map_option (\<lambda>v. v\<lparr>srcObject := Some ts\<rparr>) (videoRef st)\<rparr>"

definition stream_rejected :: "camera \<Rightarrow> camera" where
  "stream_rejected st =
     commit (st\<lparr>cam_error := Some ''Unable to access camera. Please check permissions.''\<rparr>)"

text \<open>\<^verbatim>\<open>onloadedmetadata\<close>. In \<^verbatim>\<open>components/ImageUploader.jsx\<close> the flag is set when
  \<^verbatim>\<open>play()\<close> resolves and the error when it rejects; the second copy sets the flag at
  once. \<^verbatim>\<open>onerror\<close> exists in \<^verbatim>\<open>components/ImageUploader.jsx\<close> only.\<close>

definition loadedmetadata :: "bool \<Rightarrow> camera \<Rightarrow> camera" where
  "loadedmetadata play_resolves st =
     (case videoRef st of
        None \<Rightarrow> st
      | Some v \<Rightarrow>
          (if play_resolves then commit (st\<lparr>isStreaming := True\<rparr>)
           else commit (st\<lparr>cam_error := Some ''Unable to start camera.''\<rparr>)))"

definition loadedmetadata_part000 :: "camera \<Rightarrow> camera" where
  "loadedmetadata_part000 st = commit (st\<lparr>isStreaming := True\<rparr>)"

definition video_onerror :: "camera \<Rightarrow> camera" where
  "video_onerror st = commit (st\<lparr>cam_error := Some ''Camera error occurred.''\<rparr>)"

definition open_camera :: camera where
  "open_camera = startCamera mounted"

definition open_camera_part000 :: camera where
  "open_camera_part000 = startCamera_part000 mounted"

subsection \<open>captureImage\<close>

text \<open>A quotient by zero is not a finite number, and neither is its product with
  anything: \<open>None\<close> stands for the values that are not finite.\<close>

definition js_div :: "real \<Rightarrow> real \<Rightarrow> real option" where
  "js_div x y = (if y = 0 then None else Some (x / y))"

definition js_mul :: "real \<Rightarrow> real option \<Rightarrow> real option" where
  "js_mul x y = map_option (\<lambda>s. x * s) y"

definition CNIC_ASPECT_RATIO :: real where
  "CNIC_ASPECT_RATIO = 1.586"

text \<open>\<^verbatim>\<open>drawImage\<close> paints nothing when an argument is not finite or the source rectangle
  has no width or no height; otherwise the canvas shows the call.\<close>

definition drawImage ::
  "real option \<Rightarrow> real option \<Rightarrow> real option \<Rightarrow> real option \<Rightarrow> canvas \<Rightarrow> canvas" where
  "drawImage cropX cropY cropWidth cropHeight c =
     (case (cropX, cropY, cropWidth, cropHeight) of
        (Some x, Some y, Some w, Some h) \<Rightarrow>
          (if w = 0 \<or> h = 0 then c
           else c\<lparr>painted := Some \<lparr>sx = x, sy = y, sWidth = w, sHeight = h,
                                   dx = 0, dy = 0, dWidth = 856, dHeight = 540\<rparr>\<rparr>)
      | _ \<Rightarrow> c)"

text \<open>Setting \<^verbatim>\<open>canvas.width\<close> and \<^verbatim>\<open>canvas.height\<close> sizes and clears the canvas.\<close>

definition resize :: "canvas \<Rightarrow> canvas" where
  "resize c = c\<lparr>width := 856, height := 540, painted := None\<rparr>"

text \<open>\<^verbatim>\<open>captureImage\<close> of \<^verbatim>\<open>components/ImageUploader.jsx\<close>. The argument \<open>throws\<close> says
  whether \<^verbatim>\<open>drawImage\<close> or \<^verbatim>\<open>toDataURL\<close> throws inside the \<^verbatim>\<open>try\<close>.\<close>

definition captureImage :: "bool \<Rightarrow> camera \<Rightarrow> camera" where
  "captureImage throws st =
     (case videoRef st of
        None \<Rightarrow> st
      | Some v \<Rightarrow>
     (case canvasRef st of
        None \<Rightarrow> st
      | Some c \<Rightarrow>
     (if readyState v \<noteq> HAVE_ENOUGH_DATA then st
      else
        (let vw = (case videoWidth v of None \<Rightarrow> clientWidth v | Some w \<Rightarrow> w);
             vh = (case videoHeight v of None \<Rightarrow> clientHeight v | Some h \<Rightarrow> h);
             displayWidth = real (clientWidth v);
             displayHeight = real (clientHeight v)
         in if vw = 0 \<or> vh = 0 then st
            else
              (let overlayWidth = displayWidth * 0.8;
                   overlayHeight = overlayWidth / CNIC_ASPECT_RATIO;
                   overlayX = (displayWidth - overlayWidth) / 2;
                   overlayY = (displayHeight - overlayHeight) / 2;
                   scaleX = js_div (real vw) displayWidth;
                   scaleY = js_div (real vh) displayHeight;
                   cropX = js_mul overlayX scaleX;
                   cropY = js_mul overlayY scaleY;
                   cropWidth = js_mul overlayWidth scaleX;
                   cropHeight = js_mul overlayHeight scaleY;
                   c1 = resize c
               in if throws
                  then st\<lparr>canvasRef := Some c1,
                          effects := effects st @ [Message ''Failed to capture image.'']\<rparr>
                  else
                    (let c2 = drawImage cropX cropY cropWidth cropHeight c1
                     in commit (st\<lparr>canvasRef := Some c2,
                                   capturedImage := Some (encode c2 ''image/jpeg'' 0.9),
                                   showPreview := True\<rparr>)))))))"

text \<open>\<^verbatim>\<open>captureImage\<close> of the second copy: it schedules itself again while the video is
  not ready, falls back to the displayed size when the frame size is zero, and crops the
  largest centred rectangle of the card's ratio out of the frame.\<close>

definition or_else :: "nat option \<Rightarrow> nat \<Rightarrow> nat" where
  "or_else a b = (case a of None \<Rightarrow> b | Some n \<Rightarrow> (if n = 0 then b else n))"

definition captureImage_part000 :: "bool \<Rightarrow> camera \<Rightarrow> camera" where
  "captureImage_part000 throws st =
     (case videoRef st of
        None \<Rightarrow> st
      | Some v \<Rightarrow>
     (case canvasRef st of
        None \<Rightarrow> st
      | Some c \<Rightarrow>
     (if readyState v \<noteq> HAVE_ENOUGH_DATA
      then st\<lparr>timers := timers st @ [(CaptureImage, 100)]\<rparr>
      else
        (let vw = or_else (videoWidth v) (clientWidth v);
             vh = or_else (videoHeight v) (clientHeight v)
         in if vw = 0 \<or> vh = 0 then st
            else
              (let cropHeight = (if real vw / real vh > CNIC_ASPECT_RATIO then real vh
                                 else real vw / CNIC_ASPECT_RATIO);
                   cropWidth = (if real vw / real vh > CNIC_ASPECT_RATIO
                                then real vh * CNIC_ASPECT_RATIO
                                else real vw);
                   startX = (real vw - cropWidth) / 2;
                   startY = (real vh - cropHeight) / 2;
                   c1 = resize c
               in if throws
                  then st\<lparr>canvasRef := Some c1,
                          effects := effects st @
                            [Message ''Failed to capture image. Please try again.'']\<rparr>
                  else
                    (let c2 = drawImage (Some startX) (Some startY) (Some cropWidth)
                                (Some cropHeight) c1
                     in commit (st\<lparr>canvasRef := Some c2,
                                   capturedImage := Some (encode c2 ''image/jpeg'' 0.9),
                                   showPreview := True\<rparr>)))))))"

subsection \<open>Accept, retake, cancel\<close>

text \<open>\<^verbatim>\<open>confirmCapture\<close> asks the canvas for a blob; the callback gets the blob later
  (\<open>None\<close> is a \<^verbatim>\<open>null\<close> blob, which the \<^verbatim>\<open>File\<close> constructor turns into the text
  \<^verbatim>\<open>null\<close>), hands the file to \<^verbatim>\<open>onCapture\<close> and calls \<^verbatim>\<open>stopCamera\<close>. Both copies agree.\<close>

definition confirmCapture :: "camera \<Rightarrow> camera" where
  "confirmCapture st =
     (case capturedImage st of
        None \<Rightarrow> st
      | Some img \<Rightarrow>
          (case canvasRef st of
             None \<Rightarrow> st
           | Some c \<Rightarrow> st\<lparr>blob_requests := blob_requests st @ [encode c ''image/jpeg'' 0.9]\<rparr>))"

definition blob_ready :: "nat list option \<Rightarrow> nat \<Rightarrow> camera \<Rightarrow> camera" where
  "blob_ready blob now st =
     (case blob_requests st of
        [] \<Rightarrow> st
      | r # rs \<Rightarrow>
          (let bits = (case blob of None \<Rightarrow> map of_char ''null'' | Some b \<Rightarrow> b);
               f = new_File bits (''cnic-'' @ show_nat now @ ''.jpg'') ''image/jpeg'';
               st1 = st\<lparr>blob_requests := rs, effects := effects st @ [Captured f]\<rparr>
           in commit (stopCamera st1)))"

definition retakePhoto :: "camera \<Rightarrow> camera" where
  "retakePhoto st =
     commit (st\<lparr>capturedImage := None, showPreview := False,
                timers := timers st @ [(StartCamera, 100)]\<rparr>)"

definition retakePhoto_part000 :: "camera \<Rightarrow> camera" where
  "retakePhoto_part000 st = commit (st\<lparr>capturedImage := None, showPreview := False\<rparr>)"

definition handleClose :: "camera \<Rightarrow> camera" where
  "handleClose st = (let st1 = stopCamera st in st1\<lparr>effects := effects st1 @ [Closed]\<rparr>)"

text \<open>A timer set by the component fires: the oldest one first.\<close>

definition timer_fired :: "bool \<Rightarrow> camera \<Rightarrow> camera" where
  "timer_fired throws st =
     (case timers st of
        [] \<Rightarrow> st
      | (StartCamera, ms) # r \<Rightarrow> startCamera (st\<lparr>timers := r\<rparr>)
      | (CaptureImage, ms) # r \<Rightarrow> captureImage_part000 throws (st\<lparr>timers := r\<rparr>))"

subsection \<open>Descriptions used in the statements about the capture flow\<close>

text \<open>The region the specification describes: the overlay, centred on the displayed
  video, 0.8 of its width wide and that width over 1.586 high, with x and width scaled by
  \<open>videoWidth / displayWidth\<close> and y and height by \<open>videoHeight / displayHeight\<close>.\<close>

definition overlay_region :: "real \<Rightarrow> real \<Rightarrow> real \<Rightarrow> real \<Rightarrow> draw_call" where
  "overlay_region displayWidth displayHeight vw vh =
     \<lparr>sx = ((displayWidth - 0.8 * displayWidth) / 2) * (vw / displayWidth),
      sy = ((displayHeight - 0.8 * displayWidth / 1.586) / 2) * (vh / displayHeight),
      sWidth = (0.8 * displayWidth) * (vw / displayWidth),
      sHeight = (0.8 * displayWidth / 1.586) * (vh / displayHeight),
      dx = 0, dy = 0, dWidth = 856, dHeight = 540\<rparr>"

text \<open>The largest centred rectangle of ratio 1.586 inside a frame.\<close>

definition centred_card_region :: "real \<Rightarrow> real \<Rightarrow> draw_call" where
  "centred_card_region vw vh =
     (if vw / vh > 1.586
      then \<lparr>sx = (vw - vh * 1.586) / 2, sy = 0, sWidth = vh * 1.586, sHeight = vh,
            dx = 0, dy = 0, dWidth = 856, dHeight = 540\<rparr>
      else \<lparr>sx = 0, sy = (vh - vw / 1.586) / 2, sWidth = vw, sHeight = vw / 1.586,
            dx = 0, dy = 0, dWidth = 856, dHeight = 540\<rparr>)"

subsection \<open>A sample session\<close>

text \<open>The flow is opened, the camera grants a stream with one track (track 0), the video
  plays and reports enough data, frames of 1920 by 1080 shown at 600 by 338. Then the
  capture button is pressed. Once for each copy.\<close>

definition sample_streaming :: camera where
  "sample_streaming =
     video_reports 4 1920 1080 600 338 (loadedmetadata True (stream_resolved [0] open_camera))"

definition sample_streaming_part000 :: camera where
  "sample_streaming_part000 =
     video_reports 4 1920 1080 600 338
       (loadedmetadata_part000 (stream_resolved [0] open_camera_part000))"

definition sample_preview :: camera where
  "sample_preview = captureImage False sample_streaming"

definition sample_preview_part000 :: camera where
  "sample_preview_part000 = captureImage_part000 False sample_streaming_part000"

text \<open>The same session with a video that has metadata but not enough data yet.\<close>

definition sample_not_ready :: camera where
  "sample_not_ready =
     video_reports 2 1920 1080 600 338 (loadedmetadata True (stream_resolved [0] open_camera))"

definition sample_not_ready_part000 :: camera where
  "sample_not_ready_part000 =
     video_reports 2 1920 1080 600 338
       (loadedmetadata_part000 (stream_resolved [0] open_camera_part000))"

text \<open>The same session in which \<^verbatim>\<open>play()\<close> rejects after the stream was attached.\<close>

definition sample_play_failed :: camera where
  "sample_play_failed = loadedmetadata False (stream_resolved [0] open_camera)"

subsection \<open>Sample values of the form\<close>

definition sample_jpeg :: js_file where
  "sample_jpeg = \<lparr>file_name = ''cnic-1.jpg'', file_type = ''image/jpeg'', file_bytes = [255, 216, 255]\<rparr>"

definition sample_jpeg2 :: js_file where
  "sample_jpeg2 = \<lparr>file_name = ''cnic-2.jpg'', file_type = ''image/jpeg'', file_bytes = [255, 216, 254]\<rparr>"

definition sample_png :: js_file where
  "sample_png = \<lparr>file_name = ''b.png'', file_type = ''image/png'', file_bytes = [137, 80, 78]\<rparr>"

definition sample_pdf :: js_file where
  "sample_pdf = \<lparr>file_name = ''a.pdf'', file_type = ''application/pdf'', file_bytes = [37, 80, 68]\<rparr>"

text \<open>What the upload widget passes when the user picks a file and no upload is started:
  the file itself, without a status.\<close>

definition pick :: "js_file \<Rightarrow> upload_info" where
  "pick f = \<lparr>info_status = None, info_originFileObj = None, info_file = FileObj f\<rparr>"

text \<open>A form with one field filled in and a JPEG staged, with its preview, for the slot
  \<^verbatim>\<open>acknowledgement\<close>.\<close>

definition sample_form :: app where
  "sample_form =
     (init_app [(''orderID'', Text ''42'')])
       \<lparr>fileList := [(''acknowledgement'', FileObj sample_jpeg)],
        imagePreviews := [(''acknowledgement'', readAsDataURL sample_jpeg)]\<rparr>"

text \<open>A response 200 whose body is the text \<^verbatim>\<open>OK\<close>: \<^verbatim>\<open>response.json()\<close> rejects on it,
  and a body that has been read cannot be read again, so the \<^verbatim>\<open>response.text()\<close> that
  follows rejects too.\<close>

definition sample_ok_not_json :: response where
  "sample_ok_not_json =
     \<lparr>resp_ok = True, resp_status = 200,
      resp_json = Rejects ''Unexpected token O in JSON at position 0'',
      resp_text = Rejects ''body stream already read''\<rparr>"

text \<open>Three histories of the form: one in which every reader finishes in turn, and two in
  which the reader started last finishes first (two captures accepted for the slot; two
  files picked for the slot).\<close>

definition history_in_order :: "app_event list" where
  "history_in_order =
     [OpenCamera ''acknowledgement'', CameraCapture sample_jpeg,
      FileChange ''acknowledgement'' (pick sample_png) 1000,
      ReaderLoaded 0, ReaderLoaded 0]"

definition captures_out_of_order :: "app_event list" where
  "captures_out_of_order =
     [OpenCamera ''acknowledgement'', CameraCapture sample_jpeg,
      OpenCamera ''acknowledgement'', CameraCapture sample_jpeg2,
      ReaderLoaded 1, ReaderLoaded 0]"

definition picks_out_of_order :: "app_event list" where
  "picks_out_of_order =
     [FileChange ''acknowledgement'' (pick sample_jpeg) 1000,
      FileChange ''acknowledgement'' (pick sample_png) 2000,
      ReaderLoaded 1, ReaderLoaded 0]"

text \<open>A capture is accepted and its preview set; then a file is picked for the same slot
  and its reader ends in \<^verbatim>\<open>error\<close>.\<close>

definition pick_not_readable :: "app_event list" where
  "pick_not_readable =
     [OpenCamera ''acknowledgement'', CameraCapture sample_jpeg, ReaderLoaded 0,
      FileChange ''acknowledgement'' (pick sample_png) 1000, ReaderFailed 0]"

text \<open>The sample session with a video element that takes no room on the page.\<close>

definition sample_no_layout :: camera where
  "sample_no_layout =
     video_reports 4 1920 1080 0 0 (loadedmetadata True (stream_resolved [0] open_camera))"

section \<open>The decoder: what it returns and when it throws\<close>

lemma copy_loop_eq:
  "n \<le> length bstr \<Longrightarrow> length u = length bstr \<Longrightarrow>
   copy_loop bstr n u = map of_char (take n bstr) @ drop n u"
proof (induction n arbitrary: u)
  case 0
  then show ?case by simp
next
  case (Suc n)
  then have n: "n < length bstr" by simp
  have "copy_loop bstr (Suc n) u = copy_loop bstr n (u[n := (of_char (bstr ! n) :: nat)])"
    by simp
  also have "\<dots> = map of_char (take n bstr) @ drop n (u[n := (of_char (bstr ! n) :: nat)])"
    using Suc n by simp
  also have "drop n (u[n := (of_char (bstr ! n) :: nat)]) = of_char (bstr ! n) # drop (Suc n) u"
    using Suc.prems n by (simp add: Cons_nth_drop_Suc[symmetric] upd_conv_take_nth_drop)
  finally show ?case using n by (simp add: take_Suc_conv_app_nth)
qed

lemma copy_loop_all:
  "copy_loop bstr (length bstr) (replicate (length bstr) 0) = map of_char bstr"
  by (simp add: copy_loop_eq)

lemma split_on_unfold:
  "split_on c s =
     takeWhile (\<lambda>x. x \<noteq> c) s #
       (case dropWhile (\<lambda>x. x \<noteq> c) s of [] \<Rightarrow> [] | x # r \<Rightarrow> split_on c r)"
proof (induction s)
  case Nil
  then show ?case by simp
next
  case (Cons a s)
  show ?case
  proof (cases "a = c")
    case True
    then show ?thesis by simp
  next
    case False
    then show ?thesis by (simp add: Cons.IH)
  qed
qed

lemma dropWhile_comma:
  "dropWhile (\<lambda>x. x \<noteq> c) s = (if c \<in> set s then c # drop (Suc (length (takeWhile (\<lambda>x. x \<noteq> c) s))) s else [])"
  by (induction s) auto

lemma split_on_segments:
  "split_on CHR '','' s =
     (if CHR '','' \<in> set s
      then header_of s # payload_of s #
           (case dropWhile (\<lambda>x. x \<noteq> CHR '','') (drop (Suc (length (header_of s))) s) of [] \<Rightarrow> [] | x # r \<Rightarrow> split_on CHR '','' r)
      else [s])"
proof (cases "CHR '','' \<in> set s")
  case True
  have "split_on CHR '','' s = header_of s # split_on CHR '','' (drop (Suc (length (header_of s))) s)"
    using True by (subst split_on_unfold) (simp add: dropWhile_comma header_of_def)
  also have "split_on CHR '','' (drop (Suc (length (header_of s))) s) = payload_of s #
           (case dropWhile (\<lambda>x. x \<noteq> CHR '','') (drop (Suc (length (header_of s))) s) of [] \<Rightarrow> [] | x # r \<Rightarrow> split_on CHR '','' r)"
    by (subst split_on_unfold) (simp add: payload_of_def)
  finally show ?thesis using True by simp
next
  case False
  then have tw: "takeWhile (\<lambda>x. x \<noteq> CHR '','') s = s" "dropWhile (\<lambda>x. x \<noteq> CHR '','') s = []"
    by auto
  show ?thesis using False by (subst split_on_unfold) (simp add: tw)
qed

lemma lazy_group_Some:
  "lazy_group cs = Some m \<longleftrightarrow>
     (\<exists>b. cs = m @ CHR '';'' # b \<and> CHR '';'' \<notin> set m \<and> (\<forall>x\<in>set m. \<not> line_terminator x))"
proof (induction cs arbitrary: m)
  case Nil
  then show ?case by simp
next
  case (Cons c cs)
  show ?case
  proof (cases "c = CHR '';''")
    case True
    then show ?thesis by (cases m) auto
  next
    case False
    show ?thesis
    proof (cases "line_terminator c")
      case True
      with False show ?thesis by (cases m) auto
    next
      case lt: False
      with False Cons.IH show ?thesis
        by (cases m) (auto simp: Cons_eq_append_conv)
    qed
  qed
qed

lemma lazy_group_complete:
  "\<forall>x\<in>set m. \<not> line_terminator x \<Longrightarrow> lazy_group (m @ CHR '';'' # b) \<noteq> None"
  by (induction m) auto

lemma match_mime_Some:
  "match_mime s = Some m \<Longrightarrow>
     \<exists>a b. s = a @ CHR '':'' # m @ CHR '';'' # b \<and> CHR '';'' \<notin> set m \<and> (\<forall>x\<in>set m. \<not> line_terminator x)"
proof (induction s)
  case Nil
  then show ?case by simp
next
  case (Cons c s)
  show ?case
  proof (cases "c = CHR '':'' \<and> lazy_group s \<noteq> None")
    case True
    with Cons.prems have "lazy_group s = Some m" by auto
    then obtain b where "s = m @ CHR '';'' # b" "CHR '';'' \<notin> set m" "\<forall>x\<in>set m. \<not> line_terminator x"
      unfolding lazy_group_Some by blast
    then have "c # s = [] @ CHR '':'' # m @ CHR '';'' # b" using True by simp
    then show ?thesis using \<open>CHR '';'' \<notin> set m\<close> \<open>\<forall>x\<in>set m. \<not> line_terminator x\<close> by blast
  next
    case False
    with Cons.prems have "match_mime s = Some m" by (auto split: if_splits option.splits)
    from Cons.IH[OF this] obtain a b where
      "s = a @ CHR '':'' # m @ CHR '';'' # b" "CHR '';'' \<notin> set m" "\<forall>x\<in>set m. \<not> line_terminator x"
      by blast
    then have "c # s = (c # a) @ CHR '':'' # m @ CHR '';'' # b" by simp
    then show ?thesis using \<open>CHR '';'' \<notin> set m\<close> \<open>\<forall>x\<in>set m. \<not> line_terminator x\<close> by blast
  qed
qed

lemma match_mime_complete:
  "\<forall>x\<in>set m. \<not> line_terminator x \<Longrightarrow> match_mime (a @ CHR '':'' # m @ CHR '';'' # b) \<noteq> None"
proof (induction a)
  case Nil
  then show ?case using lazy_group_complete[of m b] by (auto split: option.splits)
next
  case (Cons x a)
  then show ?case by (auto split: option.splits)
qed

lemma match_mime_None_iff:
  "match_mime s = None \<longleftrightarrow>
     \<not> (\<exists>a m b. s = a @ CHR '':'' # m @ CHR '';'' # b \<and> (\<forall>x\<in>set m. \<not> line_terminator x))"
proof
  assume n: "match_mime s = None"
  show "\<not> (\<exists>a m b. s = a @ CHR '':'' # m @ CHR '';'' # b \<and> (\<forall>x\<in>set m. \<not> line_terminator x))"
  proof
    assume "\<exists>a m b. s = a @ CHR '':'' # m @ CHR '';'' # b \<and> (\<forall>x\<in>set m. \<not> line_terminator x)"
    then obtain a m b where "s = a @ CHR '':'' # m @ CHR '';'' # b" "\<forall>x\<in>set m. \<not> line_terminator x"
      by blast
    then have "match_mime s \<noteq> None" using match_mime_complete by blast
    with n show False by simp
  qed
next
  assume h: "\<not> (\<exists>a m b. s = a @ CHR '':'' # m @ CHR '';'' # b \<and> (\<forall>x\<in>set m. \<not> line_terminator x))"
  show "match_mime s = None"
  proof (cases "match_mime s")
    case None
    then show ?thesis .
  next
    case (Some m)
    from match_mime_Some[OF this] h show ?thesis by blast
  qed
qed

lemma match_mime_first:
  "CHR '':'' \<notin> set a \<Longrightarrow> CHR '';'' \<notin> set m \<Longrightarrow> \<forall>x\<in>set m. \<not> line_terminator x \<Longrightarrow>
   match_mime (a @ CHR '':'' # m @ CHR '';'' # b) = Some m"
proof (induction a)
  case Nil
  have "lazy_group (m @ CHR '';'' # b) = Some m"
    unfolding lazy_group_Some using Nil by blast
  then show ?case by simp
next
  case (Cons x a)
  then show ?case by auto
qed

lemma atob_undefined: "atob ''undefined'' = None"
  by code_simp

lemma those_Some_all: "those xs = Some ys \<Longrightarrow> \<forall>x\<in>set xs. x \<noteq> None"
  by (induction xs arbitrary: ys) (auto split: option.splits)

lemma b64_index_comma: "b64_index CHR '','' = None"
  by (simp add: b64_index_def)

lemma strip_padding_rev_mem: "c \<noteq> CHR ''='' \<Longrightarrow> c \<in> set r \<Longrightarrow> c \<in> set (strip_padding_rev r)"
  by (induction r rule: strip_padding_rev.induct) auto

lemma strip_padding_mem: "c \<noteq> CHR ''='' \<Longrightarrow> c \<in> set d \<Longrightarrow> c \<in> set (strip_padding d)"
  using strip_padding_rev_mem[of c "rev d"] by (simp add: strip_padding_def)

lemma atob_no_comma:
  assumes "atob d = Some b"
  shows "CHR '','' \<notin> set d"
proof
  assume c: "CHR '','' \<in> set d"
  define d1 where "d1 = filter (\<lambda>c. \<not> ascii_whitespace c) d"
  define d2 where "d2 = (if length d1 mod 4 = 0 then strip_padding d1 else d1)"
  have "CHR '','' \<in> set d1" using c by (simp add: d1_def ascii_whitespace_def)
  then have m: "CHR '','' \<in> set d2" by (simp add: d2_def strip_padding_mem)
  from assms obtain vs where "those (map b64_index d2) = Some vs"
    by (auto simp: atob_def Let_def d1_def d2_def split: if_splits option.splits)
  from those_Some_all[OF this] m have "b64_index CHR '','' \<noteq> None" by auto
  then show False by (simp add: b64_index_comma)
qed

lemma base64ToFile_eq:
  "base64ToFile s fileName =
     (case match_mime (header_of s) of
        None \<Rightarrow> Inl (TypeError ''null has no property 1'')
      | Some mime \<Rightarrow>
          (if CHR '','' \<in> set s
           then (case atob (payload_of s) of
                   None \<Rightarrow> Inl InvalidCharacterError
                 | Some bstr \<Rightarrow> Inr \<lparr>file_name = fileName, file_type = blob_type mime,
                                      file_bytes = map of_char bstr\<rparr>)
           else Inl InvalidCharacterError))"
proof (cases "CHR '','' \<in> set s")
  case True
  then show ?thesis
    by (simp add: base64ToFile_def split_on_segments copy_loop_all new_File_def
        split: option.splits)
next
  case False
  then have "header_of s = s" by (auto simp: header_of_def)
  with False show ?thesis
    by (simp add: base64ToFile_def split_on_segments atob_undefined split: option.splits)
qed

lemma header_of_append:
  "CHR '','' \<notin> set pre \<Longrightarrow> header_of (pre @ CHR '','' # post) = pre"
  by (induction pre) (auto simp: header_of_def)

lemma payload_of_append:
  "CHR '','' \<notin> set pre \<Longrightarrow> CHR '','' \<notin> set pl \<Longrightarrow> payload_of (pre @ CHR '','' # pl) = pl"
  by (auto simp: payload_of_def header_of_append)

lemma base64ToFile_wellformed:
  assumes "CHR '','' \<notin> set mime" "CHR '';'' \<notin> set mime" "\<forall>x\<in>set mime. \<not> line_terminator x"
    and "atob payload = Some bstr"
  shows "base64ToFile (''data:'' @ mime @ '';base64,'' @ payload) fileName =
        Inr \<lparr>file_name = fileName, file_type = blob_type mime, file_bytes = map of_char bstr\<rparr>"
proof -
  define pre where "pre = ''data:'' @ mime @ '';base64''"
  have s: "''data:'' @ mime @ '';base64,'' @ payload = pre @ CHR '','' # payload"
    by (simp add: pre_def)
  have c: "CHR '','' \<notin> set pre" using assms(1) by (simp add: pre_def)
  have p: "CHR '','' \<notin> set payload" using assms(4) atob_no_comma by blast
  have "pre = ''data'' @ CHR '':'' # mime @ CHR '';'' # ''base64''" by (simp add: pre_def)
  then have m: "match_mime pre = Some mime"
    using match_mime_first[of "''data''" mime "''base64''"] assms(2,3) by simp
  have "base64ToFile (pre @ CHR '','' # payload) fileName =
        Inr \<lparr>file_name = fileName, file_type = blob_type mime, file_bytes = map of_char bstr\<rparr>"
    by (simp add: base64ToFile_eq header_of_append[OF c] payload_of_append[OF c p] m assms(4))
  then show ?thesis by (simp only: s)
qed


lemma base64ToFile_Inr_iff:
  "base64ToFile s fileName = Inr f \<longleftrightarrow>
      CHR '','' \<in> set s \<and>
      (\<exists>mime bstr. match_mime (header_of s) = Some mime \<and> atob (payload_of s) = Some bstr \<and>
         f = \<lparr>file_name = fileName, file_type = blob_type mime,
              file_bytes = map of_char bstr\<rparr>)"
proof (cases "match_mime (header_of s)")
  case None
  then show ?thesis by (simp add: base64ToFile_eq)
next
  case (Some mime)
  show ?thesis
  proof (cases "CHR '','' \<in> set s")
    case False
    with Some show ?thesis by (simp add: base64ToFile_eq)
  next
    case True
    show ?thesis
    proof (cases "atob (payload_of s)")
      case None
      with Some True show ?thesis by (simp add: base64ToFile_eq)
    next
      case b: (Some bstr)
      with Some True show ?thesis by (auto simp: base64ToFile_eq)
    qed
  qed
qed

lemma base64ToFile_throws:
  "CHR '','' \<notin> set s \<or> match_mime (header_of s) = None \<or> atob (payload_of s) = None \<Longrightarrow>
   \<exists>e. base64ToFile s fileName = Inl e"
  by (cases "match_mime (header_of s)"; cases "atob (payload_of s)"; cases "CHR '','' \<in> set s")
     (simp_all add: base64ToFile_eq)

text \<open>
  Claim C10, as amended. \<open>base64ToFile\<close> returns a file exactly when its argument has a
  comma, the text before the first comma holds a colon followed on the same line by a
  semicolon, and the text between the first and the second comma is accepted by
  \<^verbatim>\<open>atob\<close>; the bytes of the file are the decoding of that text and its type is the text
  between that colon and the next semicolon, as the File constructor stores it. Hence
  for \<^verbatim>\<open>data:<mime>;base64,<valid base64>\<close> it returns that file, and for every argument
  without a comma, without the colon-semicolon match or with an invalid payload it throws.
  Neither the \<^verbatim>\<open>data\<close> scheme nor the \<^verbatim>\<open>base64\<close> marker is checked.
\<close>

theorem base64ToFile_partial:
  "(base64ToFile s fileName = Inr f \<longleftrightarrow>
      CHR '','' \<in> set s \<and>
      (\<exists>mime bstr. match_mime (header_of s) = Some mime \<and> atob (payload_of s) = Some bstr \<and>
         f = \<lparr>file_name = fileName, file_type = blob_type mime,
              file_bytes = map of_char bstr\<rparr>)) \<and>
   (CHR '','' \<notin> set mime \<and> CHR '';'' \<notin> set mime \<and> (\<forall>x\<in>set mime. \<not> line_terminator x) \<and>
    atob payload = Some bstr \<longrightarrow>
      base64ToFile (''data:'' @ mime @ '';base64,'' @ payload) fileName =
        Inr \<lparr>file_name = fileName, file_type = blob_type mime, file_bytes = map of_char bstr\<rparr>) \<and>
   (CHR '','' \<notin> set s \<longrightarrow> (\<exists>e. base64ToFile s fileName = Inl e)) \<and>
   (\<not> (\<exists>a m b. header_of s = a @ CHR '':'' # m @ CHR '';'' # b \<and> (\<forall>x\<in>set m. \<not> line_terminator x)) \<longrightarrow>
      (\<exists>e. base64ToFile s fileName = Inl e)) \<and>
   (atob (payload_of s) = None \<longrightarrow> (\<exists>e. base64ToFile s fileName = Inl e))"
proof (intro conjI impI)
  show "base64ToFile s fileName = Inr f \<longleftrightarrow>
      CHR '','' \<in> set s \<and>
      (\<exists>mime bstr. match_mime (header_of s) = Some mime \<and> atob (payload_of s) = Some bstr \<and>
         f = \<lparr>file_name = fileName, file_type = blob_type mime,
              file_bytes = map of_char bstr\<rparr>)"
    by (rule base64ToFile_Inr_iff)
next
  assume "CHR '','' \<notin> set mime \<and> CHR '';'' \<notin> set mime \<and> (\<forall>x\<in>set mime. \<not> line_terminator x) \<and>
    atob payload = Some bstr"
  then show "base64ToFile (''data:'' @ mime @ '';base64,'' @ payload) fileName =
        Inr \<lparr>file_name = fileName, file_type = blob_type mime, file_bytes = map of_char bstr\<rparr>"
    using base64ToFile_wellformed by blast
next
  assume "CHR '','' \<notin> set s"
  then show "\<exists>e. base64ToFile s fileName = Inl e"
    using base64ToFile_throws by blast
next
  assume "\<not> (\<exists>a m b. header_of s = a @ CHR '':'' # m @ CHR '';'' # b \<and> (\<forall>x\<in>set m. \<not> line_terminator x))"
  then have "match_mime (header_of s) = None" using match_mime_None_iff by blast
  then show "\<exists>e. base64ToFile s fileName = Inl e"
    using base64ToFile_throws by blast
next
  assume "atob (payload_of s) = None"
  then show "\<exists>e. base64ToFile s fileName = Inl e"
    using base64ToFile_throws by blast
qed

theorem base64ToFile_partial_witness:
  "atob ''QUJD'' = Some ''ABC'' \<and>
   base64ToFile (''data:'' @ ''image/png'' @ '';base64,'' @ ''QUJD'') ''f.jpg'' =
     Inr \<lparr>file_name = ''f.jpg'', file_type = ''image/png'', file_bytes = [65, 66, 67]\<rparr> \<and>
   CHR '','' \<notin> set ''data:image/png;base64'' \<and>
   (\<exists>e. base64ToFile ''data:image/png;base64'' ''f.jpg'' = Inl e) \<and>
   match_mime (header_of ''data;base64,QUJD'') = None \<and>
   (\<exists>e. base64ToFile ''data;base64,QUJD'' ''f.jpg'' = Inl e) \<and>
   atob (payload_of ''data:image/png;base64,QUJ!'') = None \<and>
   (\<exists>e. base64ToFile ''data:image/png;base64,QUJ!'' ''f.jpg'' = Inl e)"
proof -
  have a: "atob ''QUJD'' = Some ''ABC''" by code_simp
  have m: "CHR '','' \<notin> set ''image/png'' \<and> CHR '';'' \<notin> set ''image/png'' \<and>
           (\<forall>x\<in>set ''image/png''. \<not> line_terminator x)"
    by (simp add: line_terminator_def)
  have t: "blob_type ''image/png'' = ''image/png''" by code_simp
  have 1: "base64ToFile (''data:'' @ ''image/png'' @ '';base64,'' @ ''QUJD'') ''f.jpg'' =
     Inr \<lparr>file_name = ''f.jpg'', file_type = ''image/png'', file_bytes = [65, 66, 67]\<rparr>"
    using base64ToFile_partial[where mime = "''image/png''" and payload = "''QUJD''"
        and bstr = "''ABC''" and fileName = "''f.jpg''"] a m t by simp
  have c: "CHR '','' \<notin> set ''data:image/png;base64''" by simp
  have 2: "\<exists>e. base64ToFile ''data:image/png;base64'' ''f.jpg'' = Inl e"
    using base64ToFile_partial[where s = "''data:image/png;base64''" and fileName = "''f.jpg''"] c
    by blast
  have h: "match_mime (header_of ''data;base64,QUJD'') = None" by code_simp
  then have h': "\<not> (\<exists>a m b. header_of ''data;base64,QUJD'' = a @ CHR '':'' # m @ CHR '';'' # b \<and>
                 (\<forall>x\<in>set m. \<not> line_terminator x))"
    using match_mime_None_iff by blast
  have 3: "\<exists>e. base64ToFile ''data;base64,QUJD'' ''f.jpg'' = Inl e"
    using base64ToFile_partial[where s = "''data;base64,QUJD''" and fileName = "''f.jpg''"] h'
    by blast
  have p: "atob (payload_of ''data:image/png;base64,QUJ!'') = None" by code_simp
  have 4: "\<exists>e. base64ToFile ''data:image/png;base64,QUJ!'' ''f.jpg'' = Inl e"
    using base64ToFile_partial[where s = "''data:image/png;base64,QUJ!''" and fileName = "''f.jpg''"] p
    by blast
  from a 1 c 2 h 3 p 4 show ?thesis by blast
qed

text \<open>
  The claim as first stated (a file is returned only for arguments of the shape
  \<^verbatim>\<open>data:<mime>;base64,<valid base64>\<close>) fails on a data URL that does not declare
  base64: its payload is decoded all the same.
\<close>

theorem base64ToFile_other_shape:
  "base64ToFile ''data:text/plain;charset=utf-8,QUJD'' ''f.jpg'' =
     Inr \<lparr>file_name = ''f.jpg'', file_type = ''text/plain'', file_bytes = [65, 66, 67]\<rparr> \<and>
   \<not> data_url_shape ''data:text/plain;charset=utf-8,QUJD''"
  by code_simp


section \<open>The submission body\<close>

lemma append_field_eq:
  "append_field fd e =
     fd @ (if field_kept (snd e) then [(fst e, TextPart (field_text (snd e)))] else [])"
  by (cases "snd e") (simp_all add: append_field_def)

lemma is_file_binary: "is_file v \<Longrightarrow> is_binary (part_of v)"
  by (cases v) auto

lemma is_file_truthy: "is_file v \<Longrightarrow> truthy v"
  by (cases v) auto

lemma is_file_FileObj: "is_file v \<Longrightarrow> \<exists>f. v = FileObj f"
  by (cases v) auto

lemma foldl_append_field:
  "foldl append_field acc vs =
     acc @ map (\<lambda>e. (fst e, TextPart (field_text (snd e)))) (filter (\<lambda>e. field_kept (snd e)) vs)"
proof (induction vs arbitrary: acc)
  case Nil
  then show ?case by simp
next
  case (Cons e vs)
  have 1: "foldl append_field acc (e # vs) = foldl append_field (append_field acc e) vs"
    by simp
  have 2: "foldl append_field (append_field acc e) vs = append_field acc e @
      map (\<lambda>e. (fst e, TextPart (field_text (snd e)))) (filter (\<lambda>e. field_kept (snd e)) vs)"
    by (rule Cons.IH)
  have 3: "append_field acc e @
      map (\<lambda>e. (fst e, TextPart (field_text (snd e)))) (filter (\<lambda>e. field_kept (snd e)) vs) =
      acc @ map (\<lambda>e. (fst e, TextPart (field_text (snd e))))
              (filter (\<lambda>e. field_kept (snd e)) (e # vs))"
    by (simp add: append_field_eq)
  show ?case by (simp only: 1 2 3)
qed

lemma foldl_append_file:
  "foldl append_file acc fs =
     acc @ map (\<lambda>e. (fst e, part_of (snd e))) (filter (\<lambda>e. truthy (snd e)) fs)"
proof (induction fs arbitrary: acc)
  case Nil
  then show ?case by simp
next
  case (Cons e fs)
  have 1: "foldl append_file acc (e # fs) = foldl append_file (append_file acc e) fs"
    by simp
  have 2: "foldl append_file (append_file acc e) fs = append_file acc e @
      map (\<lambda>e. (fst e, part_of (snd e))) (filter (\<lambda>e. truthy (snd e)) fs)"
    by (rule Cons.IH)
  have 3: "append_file acc e @
      map (\<lambda>e. (fst e, part_of (snd e))) (filter (\<lambda>e. truthy (snd e)) fs) =
      acc @ map (\<lambda>e. (fst e, part_of (snd e))) (filter (\<lambda>e. truthy (snd e)) (e # fs))"
    by (simp add: append_file_def)
  show ?case by (simp only: 1 2 3)
qed

lemma assemble_closed_form:
  "assemble vs fs =
     map (\<lambda>e. (fst e, TextPart (field_text (snd e)))) (filter (\<lambda>e. field_kept (snd e)) vs) @
     map (\<lambda>e. (fst e, part_of (snd e))) (filter (\<lambda>e. truthy (snd e)) fs)"
  by (simp add: assemble_def foldl_append_field foldl_append_file)

lemma sent_handleSubmit:
  "sent (handleSubmit vs r st) = sent st @ [assemble vs (fileList st)]"
  by (cases r) (simp_all add: handleSubmit_def notify_def Let_def)

lemma sent_handleSubmit_part000:
  "sent (handleSubmit_part000 vs r st) = sent st @ [assemble vs (fileList st)]"
  by (cases r) (simp_all add: handleSubmit_part000_def notify_def Let_def split: awaited.splits)

lemma mem_kept_fields:
  "(k, p) \<in> set (map (\<lambda>e. (fst e, TextPart (field_text (snd e)))) (filter (\<lambda>e. field_kept (snd e)) vs))
     \<longleftrightarrow> (\<exists>s. (k, Text s) \<in> set vs \<and> s \<noteq> [] \<and> p = TextPart s)"
proof
  assume "(k, p) \<in> set (map (\<lambda>e. (fst e, TextPart (field_text (snd e)))) (filter (\<lambda>e. field_kept (snd e)) vs))"
  then obtain e where e: "e \<in> set vs" "field_kept (snd e)" "k = fst e" "p = TextPart (field_text (snd e))"
    by auto
  then obtain s where s: "snd e = Text s" "s \<noteq> []" by (cases "snd e") auto
  from e(1) have "(fst e, snd e) \<in> set vs" by simp
  then have "(k, Text s) \<in> set vs" by (simp only: e(3) s(1))
  moreover have "p = TextPart s" by (simp only: e(4) s(1) field_text.simps)
  ultimately have "(k, Text s) \<in> set vs \<and> s \<noteq> [] \<and> p = TextPart s" using s(2) by blast
  then show "\<exists>s. (k, Text s) \<in> set vs \<and> s \<noteq> [] \<and> p = TextPart s" ..
next
  assume "\<exists>s. (k, Text s) \<in> set vs \<and> s \<noteq> [] \<and> p = TextPart s"
  then obtain s where "(k, Text s) \<in> set vs" "s \<noteq> []" "p = TextPart s" by blast
  then have "(k, Text s) \<in> set (filter (\<lambda>e. field_kept (snd e)) vs)"
    "(\<lambda>e. (fst e, TextPart (field_text (snd e)))) (k, Text s) = (k, p)" by simp_all
  then show "(k, p) \<in> set (map (\<lambda>e. (fst e, TextPart (field_text (snd e)))) (filter (\<lambda>e. field_kept (snd e)) vs))"
    by (metis (no_types, lifting) image_eqI set_map)
qed

lemma mem_staged_files:
  assumes "\<forall>e\<in>set fs. is_file (snd e)"
  shows "(k, p) \<in> set (map (\<lambda>e. (fst e, part_of (snd e))) fs) \<longleftrightarrow>
           (\<exists>f. (k, FileObj f) \<in> set fs \<and> p = BinaryPart f)"
proof
  assume "(k, p) \<in> set (map (\<lambda>e. (fst e, part_of (snd e))) fs)"
  then obtain e where e: "e \<in> set fs" "k = fst e" "p = part_of (snd e)" by auto
  with assms obtain f where f: "snd e = FileObj f" using is_file_FileObj by blast
  from e(1) have "(fst e, snd e) \<in> set fs" by simp
  then have "(k, FileObj f) \<in> set fs" by (simp only: e(2) f)
  moreover have "p = BinaryPart f" by (simp only: e(3) f part_of.simps)
  ultimately have "(k, FileObj f) \<in> set fs \<and> p = BinaryPart f" by blast
  then show "\<exists>f. (k, FileObj f) \<in> set fs \<and> p = BinaryPart f" ..
next
  assume "\<exists>f. (k, FileObj f) \<in> set fs \<and> p = BinaryPart f"
  then obtain f where "(k, FileObj f) \<in> set fs" "p = BinaryPart f" by blast
  then have "(k, FileObj f) \<in> set fs" "(\<lambda>e. (fst e, part_of (snd e))) (k, FileObj f) = (k, p)"
    by simp_all
  then show "(k, p) \<in> set (map (\<lambda>e. (fst e, part_of (snd e))) fs)"
    by (metis (no_types, lifting) image_eqI set_map)
qed

lemma filter_all: "\<forall>x\<in>set xs. P x \<Longrightarrow> filter P xs = xs"
  by (induction xs) auto

lemma filter_none: "\<forall>x\<in>set xs. \<not> P x \<Longrightarrow> filter P xs = []"
  by (induction xs) auto

lemma assemble_files_only:
  assumes "\<forall>e\<in>set fs. is_file (snd e)"
  shows "assemble vs fs =
           map (\<lambda>e. (fst e, TextPart (field_text (snd e)))) (filter (\<lambda>e. field_kept (snd e)) vs) @
           map (\<lambda>e. (fst e, part_of (snd e))) fs"
proof -
  have "filter (\<lambda>e. truthy (snd e)) fs = fs"
    using assms by (intro filter_all) (simp add: is_file_truthy)
  then show ?thesis by (simp only: assemble_closed_form)
qed

lemma binary_parts:
  assumes "\<forall>e\<in>set fs. is_file (snd e)"
  shows "filter (\<lambda>e. is_binary (snd e)) (assemble vs fs) = map (\<lambda>e. (fst e, part_of (snd e))) fs"
proof -
  have 1: "filter (\<lambda>e. is_binary (snd e))
             (map (\<lambda>e. (fst e, TextPart (field_text (snd e)))) (filter (\<lambda>e. field_kept (snd e)) vs)) = []"
    by (intro filter_none) auto
  have 2: "filter (\<lambda>e. is_binary (snd e)) (map (\<lambda>e. (fst e, part_of (snd e))) fs) =
           map (\<lambda>e. (fst e, part_of (snd e))) fs"
    using assms by (intro filter_all) (auto simp: is_file_binary)
  show ?thesis
    unfolding assemble_files_only[OF assms] filter_append 1 2 by simp
qed

text \<open>
  Claim C6. For every list of field values and every list of staged files (one per slot
  name), the body assembled by either copy of \<open>handleSubmit\<close> holds exactly one text part
  for each field whose value is not \<^verbatim>\<open>undefined\<close>, not \<^verbatim>\<open>null\<close> and not the empty string,
  followed by exactly one binary part for each staged file under its slot name, and
  nothing else; with all fields empty and nothing staged the body is empty. The body
  is what the submission sends.
\<close>

theorem submission_body:
  assumes "\<forall>e\<in>set fs. is_file (snd e)"
  shows "assemble vs fs =
           map (\<lambda>e. (fst e, TextPart (field_text (snd e)))) (filter (\<lambda>e. field_kept (snd e)) vs) @
           map (\<lambda>e. (fst e, part_of (snd e))) fs \<and>
         (\<forall>k p. (k, p) \<in> set (assemble vs fs) \<longleftrightarrow>
            (\<exists>s. (k, Text s) \<in> set vs \<and> s \<noteq> [] \<and> p = TextPart s) \<or>
            (\<exists>f. (k, FileObj f) \<in> set fs \<and> p = BinaryPart f)) \<and>
         filter (\<lambda>e. is_binary (snd e)) (assemble vs fs) = map (\<lambda>e. (fst e, part_of (snd e))) fs \<and>
         ((\<forall>e\<in>set vs. \<not> field_kept (snd e)) \<and> fs = [] \<longrightarrow> assemble vs fs = []) \<and>
         last (sent (handleSubmit vs r st)) = assemble vs (fileList st) \<and>
         last (sent (handleSubmit_part000 vs r st)) = assemble vs (fileList st)"
proof (intro conjI allI impI)
  show "assemble vs fs =
           map (\<lambda>e. (fst e, TextPart (field_text (snd e)))) (filter (\<lambda>e. field_kept (snd e)) vs) @
           map (\<lambda>e. (fst e, part_of (snd e))) fs"
    by (rule assemble_files_only[OF assms])
  show "filter (\<lambda>e. is_binary (snd e)) (assemble vs fs) = map (\<lambda>e. (fst e, part_of (snd e))) fs"
    by (rule binary_parts[OF assms])
  show "last (sent (handleSubmit vs r st)) = assemble vs (fileList st)"
    by (simp only: sent_handleSubmit last_snoc)
  show "last (sent (handleSubmit_part000 vs r st)) = assemble vs (fileList st)"
    by (simp only: sent_handleSubmit_part000 last_snoc)
next
  fix k p
  show "(k, p) \<in> set (assemble vs fs) \<longleftrightarrow>
            (\<exists>s. (k, Text s) \<in> set vs \<and> s \<noteq> [] \<and> p = TextPart s) \<or>
            (\<exists>f. (k, FileObj f) \<in> set fs \<and> p = BinaryPart f)"
    unfolding assemble_files_only[OF assms] set_append Un_iff
      mem_kept_fields mem_staged_files[OF assms] ..
next
  assume a: "(\<forall>e\<in>set vs. \<not> field_kept (snd e)) \<and> fs = []"
  then have "filter (\<lambda>e. field_kept (snd e)) vs = []" by (intro filter_none) simp
  with a show "assemble vs fs = []" by (simp add: assemble_closed_form)
qed

theorem submission_body_witness:
  "is_file (FileObj \<lparr>file_name = ''cnic-1.jpg'', file_type = ''image/jpeg'', file_bytes = [255, 216]\<rparr>) \<and>
   assemble [(''orderID'', Text ''42''), (''fullName'', Text []), (''cnic'', Undefined), (''income'', Null)]
     [(''acknowledgement'', FileObj \<lparr>file_name = ''cnic-1.jpg'', file_type = ''image/jpeg'', file_bytes = [255, 216]\<rparr>)] =
     [(''orderID'', TextPart ''42''),
      (''acknowledgement'', BinaryPart \<lparr>file_name = ''cnic-1.jpg'', file_type = ''image/jpeg'', file_bytes = [255, 216]\<rparr>)] \<and>
   assemble [(''orderID'', Text []), (''cnic'', Undefined), (''income'', Null)] [] = []"
proof -
  let ?f = "\<lparr>file_name = ''cnic-1.jpg'', file_type = ''image/jpeg'', file_bytes = [255, 216]\<rparr>"
  have h: "\<forall>e\<in>set [(''acknowledgement'', FileObj ?f)]. is_file (snd e)" by simp
  have h0: "\<forall>e\<in>set ([] :: (string \<times> js_value) list). is_file (snd e)" by simp
  have e: "(\<forall>e\<in>set [(''orderID'', Text []), (''cnic'', Undefined), (''income'', Null)]. \<not> field_kept (snd e)) \<and>
           ([] :: (string \<times> js_value) list) = []" by simp
  from submission_body[OF h, of "[(''orderID'', Text ''42''), (''fullName'', Text []), (''cnic'', Undefined), (''income'', Null)]"]
  have 1: "assemble [(''orderID'', Text ''42''), (''fullName'', Text []), (''cnic'', Undefined), (''income'', Null)]
     [(''acknowledgement'', FileObj ?f)] =
     [(''orderID'', TextPart ''42''), (''acknowledgement'', BinaryPart ?f)]" by simp
  from submission_body[OF h0, of "[(''orderID'', Text []), (''cnic'', Undefined), (''income'', Null)]"] e
  have 2: "assemble [(''orderID'', Text []), (''cnic'', Undefined), (''income'', Null)] [] = []"
    by blast
  from 1 2 show ?thesis by simp
qed

section \<open>The validation predicate and the two file handlers\<close>

lemma two_MiB: "(real n / 1024 / 1024 \<ge> 2) = (n \<ge> 2097152)"
proof -
  have "(real n / 1024 / 1024 \<ge> 2) = (real n \<ge> 2097152)" by (simp add: field_simps)
  also have "\<dots> = (n \<ge> 2097152)" by linarith
  finally show ?thesis .
qed

lemma beforeUpload_iff:
  "snd (beforeUpload f) \<longleftrightarrow> starts_with ''image/'' (file_type f) \<and> file_size f < 2097152"
  by (auto simp: beforeUpload_def two_MiB)

lemma beforeUpload_notice:
  "\<not> snd (beforeUpload f) \<Longrightarrow> fst (beforeUpload f) \<noteq> []"
  by (auto simp: beforeUpload_def split: if_splits)

lemma handleFileChange_state: "fst (handleFileChange fieldName info now st) = st"
  by (simp add: handleFileChange_def handleFileChange_bound_def validateFile_def)

lemma handleFileChange_throws:
  "info_status info \<noteq> Some ''uploading'' \<Longrightarrow>
   snd (handleFileChange fieldName info now st) = Some (ReferenceError ''validateFile is not defined'')"
  by (simp add: handleFileChange_def handleFileChange_bound_def validateFile_def)

text \<open>Had the handler of \<^verbatim>\<open>components/ImageUploader.jsx\<close> called the declared validator,
  a file that is not an image or has 2 MiB or more would be rejected with a notice and
  the staged files and previews left as they are, and any other file would be staged.\<close>

lemma handleFileChange_bound_rejects:
  assumes "info_status info \<noteq> Some ''uploading''" "picked info = FileObj f"
    and "\<not> starts_with ''image/'' (file_type f) \<or> 2097152 \<le> file_size f"
  shows "handleFileChange_bound beforeUpload_binding fieldName info now st =
           (st\<lparr>notices := notices st @ fst (beforeUpload f)\<rparr>, None) \<and>
         fst (beforeUpload f) \<noteq> []"
proof -
  from assms(3) have r: "\<not> snd (beforeUpload f)" by (auto simp: beforeUpload_iff)
  then have n: "fst (beforeUpload f) \<noteq> []" by (rule beforeUpload_notice)
  obtain ns where b: "beforeUpload f = (ns, False)"
    using r by (cases "beforeUpload f") simp
  have "handleFileChange_bound beforeUpload_binding fieldName info now st =
           (st\<lparr>notices := notices st @ ns\<rparr>, None)"
    using assms(1,2) by (simp add: handleFileChange_bound_def beforeUpload_binding_def b)
  with n b show ?thesis by simp
qed

lemma handleFileChange_bound_accepts:
  assumes "info_status info \<noteq> Some ''uploading''" "picked info = FileObj f"
    and "starts_with ''image/'' (file_type f)" "file_size f < 2097152"
  shows "handleFileChange_bound beforeUpload_binding fieldName info now st =
           (st\<lparr>fileList := obj_set fieldName (FileObj f) (fileList st),
               readers := readers st @ [(fieldName, f)]\<rparr>, None)"
proof -
  from assms(3,4) have "beforeUpload f = ([], True)"
    by (simp add: beforeUpload_def two_MiB)
  then show ?thesis using assms(1,2)
    by (simp add: handleFileChange_bound_def beforeUpload_binding_def stage_picked_def
        getBase64_def)
qed

lemma handleFileChange_part000_file:
  "info_status info \<noteq> Some ''uploading'' \<Longrightarrow> picked info = FileObj f \<Longrightarrow>
   handleFileChange_part000 fieldName info now st =
     (st\<lparr>fileList := obj_set fieldName (FileObj f) (fileList st),
         readers := readers st @ [(fieldName, f)]\<rparr>, None)"
  by (simp add: handleFileChange_part000_def stage_picked_def getBase64_def)

text \<open>
  Claim C1 at a concrete input: a PDF of three bytes offered for the slot
  \<^verbatim>\<open>acknowledgement\<close> of the sample form, which already stages a JPEG with its preview.
  The validation predicate rejects the file with a notice, but neither handler applies
  it: the handler of \<^verbatim>\<open>components/ImageUploader.jsx\<close> ends in a \<^verbatim>\<open>ReferenceError\<close>
  with no notice raised (it does so for a valid PNG as well), and the handler of the
  second copy stages the PDF in place of the JPEG.
\<close>

theorem upload_not_validated:
  "beforeUpload sample_pdf = ([Message_error ''You can only upload image files!''], False) \<and>
   handleFileChange ''acknowledgement'' (pick sample_pdf) 1000 sample_form =
     (sample_form, Some (ReferenceError ''validateFile is not defined'')) \<and>
   handleFileChange ''acknowledgement'' (pick sample_png) 1000 sample_form =
     (sample_form, Some (ReferenceError ''validateFile is not defined'')) \<and>
   fileList sample_form = [(''acknowledgement'', FileObj sample_jpeg)] \<and>
   handleFileChange_part000 ''acknowledgement'' (pick sample_pdf) 1000 sample_form =
     (sample_form\<lparr>fileList := [(''acknowledgement'', FileObj sample_pdf)],
                  readers := [(''acknowledgement'', sample_pdf)]\<rparr>, None)"
  by (simp add: beforeUpload_def starts_with_def handleFileChange_def
      handleFileChange_bound_def validateFile_def handleFileChange_part000_def
      stage_picked_def picked_def pick_def getBase64_def sample_form_def init_app_def
      sample_pdf_def)

section \<open>Submission: reset on success, nothing touched on failure\<close>

lemma resetFields_cleared: "\<forall>e\<in>set (resetFields fs). snd e = Undefined"
  by (simp add: resetFields_def)

lemma resetFields_names: "map fst (resetFields fs) = map fst fs"
  by (simp add: resetFields_def)

lemma handleSubmit_success:
  "resp_ok r \<Longrightarrow>
   form (handleSubmit vs (Responded r) st) = resetFields (form st) \<and>
   fileList (handleSubmit vs (Responded r) st) = [] \<and>
   imagePreviews (handleSubmit vs (Responded r) st) = []"
  by (simp add: handleSubmit_def notify_def Let_def)

lemma handleSubmit_failure:
  "result = Rejected m \<or> (result = Responded r \<and> \<not> resp_ok r) \<Longrightarrow>
   form (handleSubmit vs result st) = form st \<and>
   fileList (handleSubmit vs result st) = fileList st \<and>
   imagePreviews (handleSubmit vs result st) = imagePreviews st"
  by (auto simp: handleSubmit_def notify_def Let_def)

lemma handleSubmit_part000_success:
  "resp_ok r \<Longrightarrow> resp_json r = Resolves \<or> resp_text r = Resolves \<Longrightarrow>
   form (handleSubmit_part000 vs (Responded r) st) = resetFields (form st) \<and>
   fileList (handleSubmit_part000 vs (Responded r) st) = [] \<and>
   imagePreviews (handleSubmit_part000 vs (Responded r) st) = []"
  by (auto simp: handleSubmit_part000_def notify_def Let_def split: awaited.splits)

lemma handleSubmit_part000_failure:
  "result = Rejected m \<or> (result = Responded r \<and> \<not> resp_ok r) \<Longrightarrow>
   form (handleSubmit_part000 vs result st) = form st \<and>
   fileList (handleSubmit_part000 vs result st) = fileList st \<and>
   imagePreviews (handleSubmit_part000 vs result st) = imagePreviews st"
  by (auto simp: handleSubmit_part000_def notify_def Let_def split: awaited.splits)

lemma handleSubmit_part000_body_unread:
  "resp_ok r \<Longrightarrow> resp_json r = Rejects a \<Longrightarrow> resp_text r = Rejects b \<Longrightarrow>
   form (handleSubmit_part000 vs (Responded r) st) = form st \<and>
   fileList (handleSubmit_part000 vs (Responded r) st) = fileList st \<and>
   imagePreviews (handleSubmit_part000 vs (Responded r) st) = imagePreviews st \<and>
   notices (handleSubmit_part000 vs (Responded r) st) =
     notices st @ [Notification_info ''Submitting...'' ''Submitting update...'',
                   Notification_error ''Error''
                     (''Update failed: '' @ error_message b ''Unknown error occurred'')]"
  by (simp add: handleSubmit_part000_def notify_def Let_def)

text \<open>
  Claim C2 at a concrete input: the sample form is submitted and the server answers 200
  with the body \<^verbatim>\<open>OK\<close>, which is not JSON. In the second copy \<^verbatim>\<open>response.json()\<close>
  rejects, the body is then already consumed, so \<^verbatim>\<open>response.text()\<close> in the inner
  \<^verbatim>\<open>catch\<close> rejects too and the outer \<^verbatim>\<open>catch\<close> reports an error: the field, the
  staged image and its preview stay although the response was a success.
  \<^verbatim>\<open>components/ImageUploader.jsx\<close> does not read the body and clears all three on the
  same response.
\<close>

theorem success_not_cleared_part000:
  "resp_ok sample_ok_not_json \<and>
   form (handleSubmit_part000 (form sample_form) (Responded sample_ok_not_json) sample_form) =
     [(''orderID'', Text ''42'')] \<and>
   fileList (handleSubmit_part000 (form sample_form) (Responded sample_ok_not_json) sample_form) =
     [(''acknowledgement'', FileObj sample_jpeg)] \<and>
   imagePreviews (handleSubmit_part000 (form sample_form) (Responded sample_ok_not_json) sample_form) =
     [(''acknowledgement'', readAsDataURL sample_jpeg)] \<and>
   notices (handleSubmit_part000 (form sample_form) (Responded sample_ok_not_json) sample_form) =
     [Notification_info ''Submitting...'' ''Submitting update...'',
      Notification_error ''Error'' ''Update failed: body stream already read''] \<and>
   form (handleSubmit (form sample_form) (Responded sample_ok_not_json) sample_form) =
     [(''orderID'', Undefined)] \<and>
   fileList (handleSubmit (form sample_form) (Responded sample_ok_not_json) sample_form) = [] \<and>
   imagePreviews (handleSubmit (form sample_form) (Responded sample_ok_not_json) sample_form) = []"
  by (simp add: handleSubmit_part000_def handleSubmit_def notify_def Let_def sample_form_def
      init_app_def sample_ok_not_json_def error_message_def resetFields_def)

section \<open>Previews and staged binaries\<close>

lemma map_of_obj_set: "map_of (obj_set k v al) = (map_of al)(k \<mapsto> v)"
  by (induction al) (auto simp: fun_eq_iff)

lemma fst_set_obj_set: "fst ` set (obj_set k v al) = insert k (fst ` set al)"
  by (induction al) auto

lemma distinct_obj_set: "distinct (map fst al) \<Longrightarrow> distinct (map fst (obj_set k v al))"
  by (induction al) (auto simp: fst_set_obj_set)

lemma settled_snoc:
  "settled_previews pv (rd @ [(k, f)]) = (settled_previews pv rd)(k \<mapsto> readAsDataURL f)"
  by (simp add: settled_previews_def)

lemma settled_head:
  "settled_previews (obj_set k (readAsDataURL f) pv) rd = settled_previews pv ((k, f) # rd)"
  by (simp add: settled_previews_def map_of_obj_set)

lemma agreeing_init: "agreeing [] [] []"
  by (simp add: agreeing_def settled_previews_def)

lemma agreeing_stage:
  assumes "agreeing fl pv rd"
  shows "agreeing (obj_set k (FileObj f) fl) pv (rd @ [(k, f)])"
  using assms by (auto simp: agreeing_def settled_snoc map_of_obj_set)

lemma agreeing_loaded:
  assumes "agreeing fl pv ((k, f) # rd)"
  shows "agreeing fl (obj_set k (readAsDataURL f) pv) rd"
  using assms by (simp add: agreeing_def settled_head distinct_obj_set)

lemma agreeing_consistent:
  assumes "agreeing (fileList st) (imagePreviews st) (readers st)" and "readers st = []"
  shows "consistent st"
proof -
  have "preview_agrees st e" if e: "e \<in> set (imagePreviews st)" for e
  proof -
    from assms(1) have d: "distinct (map fst (imagePreviews st))" by (simp add: agreeing_def)
    from e have "(fst e, snd e) \<in> set (imagePreviews st)" by simp
    with d have "map_of (imagePreviews st) (fst e) = Some (snd e)" by (rule map_of_is_SomeI)
    then have "settled_previews (imagePreviews st) (readers st) (fst e) = Some (snd e)"
      by (simp add: settled_previews_def assms(2))
    with assms(1) obtain f where "map_of (fileList st) (fst e) = Some (FileObj f)"
      "snd e = readAsDataURL f" unfolding agreeing_def by blast
    then show ?thesis by (simp add: preview_agrees_def)
  qed
  then show ?thesis by (simp add: consistent_def list_all_iff)
qed

lemma moves_agreeing:
  assumes "moves st st'" and "agreeing (fileList st) (imagePreviews st) (readers st)"
  shows "agreeing (fileList st') (imagePreviews st') (readers st')"
  using assms unfolding moves_def core_def
  by (auto simp: agreeing_init intro: agreeing_stage agreeing_loaded)

lemma moves_stage_picked:
  assumes "case picked info of FileObj f \<Rightarrow> True | StrVal s \<Rightarrow> starts_with ''data:'' s | PlainObj \<Rightarrow> False"
  shows "moves st (fst (stage_picked k info now st))"
proof (cases "picked info")
  case (FileObj f)
  then show ?thesis by (auto simp: moves_def core_def stage_picked_def getBase64_def)
next
  case (StrVal s)
  with assms have d: "starts_with ''data:'' s" by simp
  show ?thesis
  proof (cases "base64ToFile s (k @ ''-'' @ show_nat now @ ''.jpg'')")
    case (Inl e)
    with StrVal d show ?thesis by (simp add: moves_def core_def stage_picked_def)
  next
    case (Inr f)
    with StrVal d show ?thesis by (auto simp: moves_def core_def stage_picked_def getBase64_def)
  qed
next
  case PlainObj
  with assms show ?thesis by simp
qed

lemma moves_handleCameraCapture: "moves st (handleCameraCapture f st)"
  by (auto simp: moves_def core_def handleCameraCapture_def getBase64_def Let_def
      split: option.splits)

lemma moves_reader_loaded: "moves st (reader_loaded 0 st)"
proof (cases "readers st")
  case Nil
  then show ?thesis by (simp add: moves_def core_def reader_loaded_def)
next
  case (Cons e rd)
  then show ?thesis
    by (cases e) (auto simp: moves_def core_def reader_loaded_def)
qed

lemma moves_handleSubmit:
  assumes "case result of Responded r \<Rightarrow> \<not> resp_ok r \<or> readers st = [] | Rejected m \<Rightarrow> True"
  shows "moves st (handleSubmit vs result st)"
  using assms
  by (cases result) (auto simp: moves_def core_def handleSubmit_def notify_def Let_def)

lemma moves_handleSubmit_part000:
  assumes "case result of Responded r \<Rightarrow> \<not> resp_ok r \<or> readers st = [] | Rejected m \<Rightarrow> True"
  shows "moves st (handleSubmit_part000 vs result st)"
  using assms
  by (cases result)
     (auto simp: moves_def core_def handleSubmit_part000_def notify_def Let_def
       split: awaited.splits)

lemma moves_step:
  assumes "orderly_event st e"
  shows "moves st (step c e st)"
proof (cases e)
  case (FileChange k info now)
  show ?thesis
  proof (cases c)
    case Refactored
    with FileChange show ?thesis
      by (simp add: moves_def handleFileChange_state)
  next
    case Second
    with FileChange assms show ?thesis
      using moves_stage_picked[of info st k now]
      by (auto simp: handleFileChange_part000_def moves_def)
  qed
next
  case (OpenCamera k)
  then show ?thesis by (simp add: moves_def core_def openCamera_def)
next
  case (CameraCapture f)
  then show ?thesis by (simp add: moves_handleCameraCapture)
next
  case CloseCamera
  then show ?thesis by (simp add: moves_def core_def closeCamera_def)
next
  case (ReaderLoaded i)
  with assms show ?thesis by (simp add: moves_reader_loaded)
next
  case (ReaderFailed i)
  with assms show ?thesis by simp
next
  case (Submit vs result)
  with assms have h: "case result of Responded r \<Rightarrow> \<not> resp_ok r \<or> readers st = [] | Rejected m \<Rightarrow> True"
    by (cases result) simp_all
  show ?thesis
  proof (cases c)
    case Refactored
    with Submit h show ?thesis by (simp add: moves_handleSubmit)
  next
    case Second
    with Submit h show ?thesis by (simp add: moves_handleSubmit_part000)
  qed
qed

lemma orderly_prefix: "orderly c st (evs @ evs') \<Longrightarrow> orderly c st evs"
  by (induction evs arbitrary: st) simp_all

lemma orderly_run_agreeing:
  "orderly c st evs \<Longrightarrow> agreeing (fileList st) (imagePreviews st) (readers st) \<Longrightarrow>
   agreeing (fileList (run c evs st)) (imagePreviews (run c evs st)) (readers (run c evs st))"
proof (induction evs arbitrary: st)
  case Nil
  then show ?case by (simp add: run_def)
next
  case (Cons e evs)
  from Cons.prems(1) have o: "orderly_event st e" "orderly c (step c e st) evs" by simp_all
  from moves_agreeing[OF moves_step[OF o(1)] Cons.prems(2)]
  have "agreeing (fileList (step c e st)) (imagePreviews (step c e st)) (readers (step c e st))" .
  from Cons.IH[OF o(2) this] show ?case by (simp add: run_def)
qed

text \<open>
  Claim C9, as amended. The binary is staged at once and its preview is set later, by the
  callback of the reader started for it, and only if that reader ends in \<^verbatim>\<open>load\<close>. If
  every reader started ends in \<^verbatim>\<open>load\<close> (none in \<^verbatim>\<open>error\<close> or \<^verbatim>\<open>abort\<close>), the
  readers finish in the order they were started, the form is not reset while a reader is
  still reading, and the upload widget hands over a file or a data URL, then, in either
  copy, whenever no reader is reading any more every preview the form holds is the data
  URL of the file staged for its slot.
\<close>

theorem previews_agree_when_orderly:
  assumes "orderly c (init_app fs) evs" and "readers (run c evs (init_app fs)) = []"
  shows "consistent (run c evs (init_app fs))"
proof -
  have "agreeing (fileList (init_app fs)) (imagePreviews (init_app fs)) (readers (init_app fs))"
    by (simp add: init_app_def agreeing_init)
  from orderly_run_agreeing[OF assms(1) this] assms(2) show ?thesis
    by (rule agreeing_consistent)
qed

theorem previews_agree_when_orderly_witness:
  "orderly Second (init_app []) history_in_order \<and>
   readers (run Second history_in_order (init_app [])) = [] \<and>
   consistent (run Second history_in_order (init_app [])) \<and>
   fileList (run Second history_in_order (init_app [])) =
     [(''acknowledgement'', FileObj sample_png)] \<and>
   imagePreviews (run Second history_in_order (init_app [])) =
     [(''acknowledgement'', readAsDataURL sample_png)]"
proof -
  have o: "orderly Second (init_app []) history_in_order" by code_simp
  have r: "readers (run Second history_in_order (init_app [])) = []" by code_simp
  have f: "fileList (run Second history_in_order (init_app [])) =
     [(''acknowledgement'', FileObj sample_png)]" by code_simp
  have p: "imagePreviews (run Second history_in_order (init_app [])) =
     [(''acknowledgement'', readAsDataURL sample_png)]" by code_simp
  from previews_agree_when_orderly[OF o r] o r f p show ?thesis by blast
qed

text \<open>
  The claim as first stated fails when two readers finish out of order. Two captures are
  accepted for the same slot, the reader of the second finishes first and the reader of
  the first last: no reader is left, the slot stages the second capture, and its preview
  is the data URL of the first, in both copies. In the second copy the same happens with
  two files picked one after the other. It also fails when a reader ends in \<^verbatim>\<open>error\<close>:
  after a capture whose preview is set, a file picked for the same slot is staged, its
  reader fails, nothing sets the preview, and the slot keeps the preview of the capture;
  every other event of that history is orderly.
\<close>

theorem preview_of_older_capture:
  "readers (run Refactored captures_out_of_order (init_app [])) = [] \<and>
   fileList (run Refactored captures_out_of_order (init_app [])) =
     [(''acknowledgement'', FileObj sample_jpeg2)] \<and>
   imagePreviews (run Refactored captures_out_of_order (init_app [])) =
     [(''acknowledgement'', readAsDataURL sample_jpeg)] \<and>
   readAsDataURL sample_jpeg \<noteq> readAsDataURL sample_jpeg2 \<and>
   \<not> consistent (run Refactored captures_out_of_order (init_app [])) \<and>
   readers (run Second captures_out_of_order (init_app [])) = [] \<and>
   \<not> consistent (run Second captures_out_of_order (init_app [])) \<and>
   readers (run Second picks_out_of_order (init_app [])) = [] \<and>
   fileList (run Second picks_out_of_order (init_app [])) =
     [(''acknowledgement'', FileObj sample_png)] \<and>
   imagePreviews (run Second picks_out_of_order (init_app [])) =
     [(''acknowledgement'', readAsDataURL sample_jpeg)] \<and>
   \<not> consistent (run Second picks_out_of_order (init_app [])) \<and>
   orderly Second (init_app []) (butlast pick_not_readable) \<and>
   readers (run Second pick_not_readable (init_app [])) = [] \<and>
   fileList (run Second pick_not_readable (init_app [])) =
     [(''acknowledgement'', FileObj sample_png)] \<and>
   imagePreviews (run Second pick_not_readable (init_app [])) =
     [(''acknowledgement'', readAsDataURL sample_jpeg)] \<and>
   \<not> consistent (run Second pick_not_readable (init_app []))"
  by code_simp

section \<open>Capturing a still\<close>

lemma commit_preview: "showPreview st \<Longrightarrow> commit st = st\<lparr>videoRef := None\<rparr>"
  by (simp add: commit_def)

lemma overlay_args:
  assumes "0 < cw" "0 < ch" "0 < W" "0 < H"
  shows "drawImage (js_mul ((real cw - real cw * 0.8) / 2) (js_div (real W) (real cw)))
           (js_mul ((real ch - real cw * 0.8 / CNIC_ASPECT_RATIO) / 2) (js_div (real H) (real ch)))
           (js_mul (real cw * 0.8) (js_div (real W) (real cw)))
           (js_mul (real cw * 0.8 / CNIC_ASPECT_RATIO) (js_div (real H) (real ch))) c1 =
         c1\<lparr>painted := Some (overlay_region (real cw) (real ch) (real W) (real H))\<rparr>"
  using assms
  by (simp add: drawImage_def js_mul_def js_div_def overlay_region_def CNIC_ASPECT_RATIO_def)

lemma overlay_args_zero:
  assumes "cw = 0 \<or> ch = 0"
  shows "drawImage (js_mul ((real cw - real cw * 0.8) / 2) (js_div (real W) (real cw)))
           (js_mul ((real ch - real cw * 0.8 / CNIC_ASPECT_RATIO) / 2) (js_div (real H) (real ch)))
           (js_mul (real cw * 0.8) (js_div (real W) (real cw)))
           (js_mul (real cw * 0.8 / CNIC_ASPECT_RATIO) (js_div (real H) (real ch))) c1 = c1"
  using assms
  by (auto simp: drawImage_def js_mul_def js_div_def split: option.splits)

lemma captureImage_ready:
  assumes "videoRef st = Some v" "canvasRef st = Some c" "readyState v = HAVE_ENOUGH_DATA"
    "videoWidth v = Some W" "videoHeight v = Some H" "0 < W" "0 < H"
  shows "captureImage False st =
     (let c2 = drawImage (js_mul ((real (clientWidth v) - real (clientWidth v) * 0.8) / 2) (js_div (real W) (real (clientWidth v))))
           (js_mul ((real (clientHeight v) - real (clientWidth v) * 0.8 / CNIC_ASPECT_RATIO) / 2) (js_div (real H) (real (clientHeight v))))
           (js_mul (real (clientWidth v) * 0.8) (js_div (real W) (real (clientWidth v))))
           (js_mul (real (clientWidth v) * 0.8 / CNIC_ASPECT_RATIO) (js_div (real H) (real (clientHeight v)))) (resize c)
      in st\<lparr>canvasRef := Some c2, capturedImage := Some (encode c2 ''image/jpeg'' 0.9),
            showPreview := True, videoRef := None\<rparr>)"
  using assms by (simp add: captureImage_def Let_def commit_preview)

lemma centred_args:
  assumes "0 < W" "0 < H"
  shows "drawImage
           (Some ((real W - (if real W / real H > CNIC_ASPECT_RATIO then real H * CNIC_ASPECT_RATIO else real W)) / 2))
           (Some ((real H - (if real W / real H > CNIC_ASPECT_RATIO then real H else real W / CNIC_ASPECT_RATIO)) / 2))
           (Some (if real W / real H > CNIC_ASPECT_RATIO then real H * CNIC_ASPECT_RATIO else real W))
           (Some (if real W / real H > CNIC_ASPECT_RATIO then real H else real W / CNIC_ASPECT_RATIO)) c1 =
         c1\<lparr>painted := Some (centred_card_region (real W) (real H))\<rparr>"
  using assms
  by (simp add: drawImage_def centred_card_region_def CNIC_ASPECT_RATIO_def)

text \<open>The region the second copy crops has the ratio of the card, lies inside the frame,
  is centred in it and spans it in one direction.\<close>

lemma centred_card_region_fits:
  assumes "0 < vw" "0 < vh"
  shows "sWidth (centred_card_region vw vh) = 1.586 * sHeight (centred_card_region vw vh)"
    and "0 \<le> sx (centred_card_region vw vh)" "0 \<le> sy (centred_card_region vw vh)"
    and "sx (centred_card_region vw vh) + sWidth (centred_card_region vw vh) \<le> vw"
    and "sy (centred_card_region vw vh) + sHeight (centred_card_region vw vh) \<le> vh"
    and "sx (centred_card_region vw vh) + sWidth (centred_card_region vw vh) / 2 = vw / 2"
    and "sy (centred_card_region vw vh) + sHeight (centred_card_region vw vh) / 2 = vh / 2"
    and "sWidth (centred_card_region vw vh) = vw \<or> sHeight (centred_card_region vw vh) = vh"
  using assms by (auto simp: centred_card_region_def field_simps)

lemma captureImage_part000_ready:
  assumes "videoRef st = Some v" "canvasRef st = Some c" "readyState v = HAVE_ENOUGH_DATA"
    "videoWidth v = Some W" "videoHeight v = Some H" "0 < W" "0 < H"
  shows "captureImage_part000 False st =
     (let c2 = (resize c)\<lparr>painted := Some (centred_card_region (real W) (real H))\<rparr>
      in st\<lparr>canvasRef := Some c2, capturedImage := Some (encode c2 ''image/jpeg'' 0.9),
            showPreview := True, videoRef := None\<rparr>)"
  using assms centred_args[OF assms(6,7), of "resize c"]
  by (simp add: captureImage_part000_def Let_def commit_preview or_else_def)

text \<open>
  Claim C3. For every native frame width \<open>W > 0\<close> and height \<open>H > 0\<close>, and every displayed
  size, a capture on a ready video in which nothing throws succeeds in both copies: the
  canvas is 856 by 540, the still shown in the preview is that canvas encoded as JPEG at
  quality 0.9, and so is the blob that accepting the preview asks for.
\<close>

theorem capture_output_size:
  assumes "videoRef st = Some v" "canvasRef st = Some c" "readyState v = HAVE_ENOUGH_DATA"
    "videoWidth v = Some W" "videoHeight v = Some H" "0 < W" "0 < H"
  shows "(\<exists>p. capturedImage (captureImage False st) =
              Some \<lparr>img_type = ''image/jpeg'', img_quality = 0.9, img_width = 856,
                    img_height = 540, img_painted = p\<rparr> \<and>
            canvasRef (captureImage False st) = Some \<lparr>width = 856, height = 540, painted = p\<rparr> \<and>
            showPreview (captureImage False st) \<and>
            blob_requests (confirmCapture (captureImage False st)) =
              blob_requests st @
              [\<lparr>img_type = ''image/jpeg'', img_quality = 0.9, img_width = 856,
                img_height = 540, img_painted = p\<rparr>]) \<and>
         (\<exists>p. capturedImage (captureImage_part000 False st) =
              Some \<lparr>img_type = ''image/jpeg'', img_quality = 0.9, img_width = 856,
                    img_height = 540, img_painted = p\<rparr> \<and>
            canvasRef (captureImage_part000 False st) =
              Some \<lparr>width = 856, height = 540, painted = p\<rparr> \<and>
            showPreview (captureImage_part000 False st) \<and>
            blob_requests (confirmCapture (captureImage_part000 False st)) =
              blob_requests st @
              [\<lparr>img_type = ''image/jpeg'', img_quality = 0.9, img_width = 856,
                img_height = 540, img_painted = p\<rparr>])"
proof (intro conjI)
  define c2 where "c2 = drawImage
      (js_mul ((real (clientWidth v) - real (clientWidth v) * 0.8) / 2)
         (js_div (real W) (real (clientWidth v))))
      (js_mul ((real (clientHeight v) - real (clientWidth v) * 0.8 / CNIC_ASPECT_RATIO) / 2)
         (js_div (real H) (real (clientHeight v))))
      (js_mul (real (clientWidth v) * 0.8) (js_div (real W) (real (clientWidth v))))
      (js_mul (real (clientWidth v) * 0.8 / CNIC_ASPECT_RATIO)
         (js_div (real H) (real (clientHeight v)))) (resize c)"
  have d: "width c2 = 856 \<and> height c2 = 540"
    by (simp add: c2_def drawImage_def resize_def split: option.splits)
  have e: "captureImage False st =
      st\<lparr>canvasRef := Some c2, capturedImage := Some (encode c2 ''image/jpeg'' 0.9),
         showPreview := True, videoRef := None\<rparr>"
    using captureImage_ready[OF assms] by (simp add: Let_def c2_def)
  have "c2 = \<lparr>width = 856, height = 540, painted = painted c2\<rparr>" using d by simp
  then have "capturedImage (captureImage False st) =
              Some \<lparr>img_type = ''image/jpeg'', img_quality = 0.9, img_width = 856,
                    img_height = 540, img_painted = painted c2\<rparr> \<and>
            canvasRef (captureImage False st) = Some \<lparr>width = 856, height = 540, painted = painted c2\<rparr> \<and>
            showPreview (captureImage False st) \<and>
            blob_requests (confirmCapture (captureImage False st)) =
              blob_requests st @
              [\<lparr>img_type = ''image/jpeg'', img_quality = 0.9, img_width = 856,
                img_height = 540, img_painted = painted c2\<rparr>]"
    using d by (simp add: e encode_def confirmCapture_def)
  then show "\<exists>p. capturedImage (captureImage False st) =
              Some \<lparr>img_type = ''image/jpeg'', img_quality = 0.9, img_width = 856,
                    img_height = 540, img_painted = p\<rparr> \<and>
            canvasRef (captureImage False st) = Some \<lparr>width = 856, height = 540, painted = p\<rparr> \<and>
            showPreview (captureImage False st) \<and>
            blob_requests (confirmCapture (captureImage False st)) =
              blob_requests st @
              [\<lparr>img_type = ''image/jpeg'', img_quality = 0.9, img_width = 856,
                img_height = 540, img_painted = p\<rparr>]" ..
next
  define c2 where "c2 = (resize c)\<lparr>painted := Some (centred_card_region (real W) (real H))\<rparr>"
  have d: "width c2 = 856 \<and> height c2 = 540" by (simp add: c2_def resize_def)
  have e: "captureImage_part000 False st =
      st\<lparr>canvasRef := Some c2, capturedImage := Some (encode c2 ''image/jpeg'' 0.9),
         showPreview := True, videoRef := None\<rparr>"
    using captureImage_part000_ready[OF assms] by (simp add: Let_def c2_def)
  have "c2 = \<lparr>width = 856, height = 540, painted = painted c2\<rparr>" using d by simp
  then have "capturedImage (captureImage_part000 False st) =
              Some \<lparr>img_type = ''image/jpeg'', img_quality = 0.9, img_width = 856,
                    img_height = 540, img_painted = painted c2\<rparr> \<and>
            canvasRef (captureImage_part000 False st) =
              Some \<lparr>width = 856, height = 540, painted = painted c2\<rparr> \<and>
            showPreview (captureImage_part000 False st) \<and>
            blob_requests (confirmCapture (captureImage_part000 False st)) =
              blob_requests st @
              [\<lparr>img_type = ''image/jpeg'', img_quality = 0.9, img_width = 856,
                img_height = 540, img_painted = painted c2\<rparr>]"
    using d by (simp add: e encode_def confirmCapture_def)
  then show "\<exists>p. capturedImage (captureImage_part000 False st) =
              Some \<lparr>img_type = ''image/jpeg'', img_quality = 0.9, img_width = 856,
                    img_height = 540, img_painted = p\<rparr> \<and>
            canvasRef (captureImage_part000 False st) =
              Some \<lparr>width = 856, height = 540, painted = p\<rparr> \<and>
            showPreview (captureImage_part000 False st) \<and>
            blob_requests (confirmCapture (captureImage_part000 False st)) =
              blob_requests st @
              [\<lparr>img_type = ''image/jpeg'', img_quality = 0.9, img_width = 856,
                img_height = 540, img_painted = p\<rparr>]" ..
qed

lemma sample_streaming_eq:
  "sample_streaming =
     \<lparr>isStreaming = True, cam_error = None, capturedImage = None, showPreview = False,
      videoRef = Some \<lparr>srcObject = Some [0], readyState = 4, videoWidth = Some 1920,
                        videoHeight = Some 1080, clientWidth = 600, clientHeight = 338\<rparr>,
      canvasRef = Some \<lparr>width = 300, height = 150, painted = None\<rparr>,
      timers = [], blob_requests = [], live = [0], effects = []\<rparr>"
  by (simp add: sample_streaming_def video_reports_def loadedmetadata_def stream_resolved_def
      open_camera_def startCamera_def mounted_def commit_def new_video_def Let_def)

lemma sample_streaming_part000_eq: "sample_streaming_part000 = sample_streaming"
  by (simp add: sample_streaming_eq sample_streaming_part000_def video_reports_def
      loadedmetadata_part000_def stream_resolved_def open_camera_part000_def
      startCamera_part000_def mounted_def commit_def new_video_def Let_def)

lemma sample_preview_eq:
  "sample_preview =
     \<lparr>isStreaming = True, cam_error = None,
      capturedImage = Some \<lparr>img_type = ''image/jpeg'', img_quality = 0.9, img_width = 856,
                             img_height = 540,
                             img_painted = Some (overlay_region 600 338 1920 1080)\<rparr>,
      showPreview = True, videoRef = None,
      canvasRef = Some \<lparr>width = 856, height = 540,
                         painted = Some (overlay_region 600 338 1920 1080)\<rparr>,
      timers = [], blob_requests = [], live = [0], effects = []\<rparr>"
  by (simp add: sample_preview_def sample_streaming_eq captureImage_def HAVE_ENOUGH_DATA_def
      Let_def commit_def drawImage_def js_mul_def js_div_def resize_def encode_def
      overlay_region_def CNIC_ASPECT_RATIO_def)

lemma sample_preview_part000_eq:
  "sample_preview_part000 =
     \<lparr>isStreaming = True, cam_error = None,
      capturedImage = Some \<lparr>img_type = ''image/jpeg'', img_quality = 0.9, img_width = 856,
                             img_height = 540,
                             img_painted = Some (centred_card_region 1920 1080)\<rparr>,
      showPreview = True, videoRef = None,
      canvasRef = Some \<lparr>width = 856, height = 540,
                         painted = Some (centred_card_region 1920 1080)\<rparr>,
      timers = [], blob_requests = [], live = [0], effects = []\<rparr>"
  by (simp add: sample_preview_part000_def sample_streaming_part000_eq sample_streaming_eq
      captureImage_part000_def HAVE_ENOUGH_DATA_def or_else_def
      Let_def commit_def drawImage_def resize_def encode_def
      centred_card_region_def CNIC_ASPECT_RATIO_def)

theorem capture_output_size_witness:
  "videoRef sample_streaming =
     Some \<lparr>srcObject = Some [0], readyState = 4, videoWidth = Some 1920,
           videoHeight = Some 1080, clientWidth = 600, clientHeight = 338\<rparr> \<and>
   capturedImage (captureImage False sample_streaming) =
     Some \<lparr>img_type = ''image/jpeg'', img_quality = 0.9, img_width = 856, img_height = 540,
           img_painted = Some (overlay_region 600 338 1920 1080)\<rparr> \<and>
   capturedImage (captureImage_part000 False sample_streaming) =
     Some \<lparr>img_type = ''image/jpeg'', img_quality = 0.9, img_width = 856, img_height = 540,
           img_painted = Some (centred_card_region 1920 1080)\<rparr>"
proof -
  let ?v = "\<lparr>srcObject = Some [0], readyState = 4, videoWidth = Some 1920,
           videoHeight = Some 1080, clientWidth = 600, clientHeight = 338\<rparr>"
  let ?c = "\<lparr>width = 300, height = 150, painted = None\<rparr>"
  have 1: "videoRef sample_streaming = Some ?v" by (simp add: sample_streaming_eq)
  have 2: "canvasRef sample_streaming = Some ?c" by (simp add: sample_streaming_eq)
  have 3: "readyState ?v = HAVE_ENOUGH_DATA" by (simp add: HAVE_ENOUGH_DATA_def)
  have 4: "videoWidth ?v = Some 1920" "videoHeight ?v = Some 1080" by simp_all
  have 5: "(0::nat) < 1920" "(0::nat) < 1080" by simp_all
  from capture_output_size[OF 1 2 3 4 5]
  obtain p q where
    p: "capturedImage (captureImage False sample_streaming) =
          Some \<lparr>img_type = ''image/jpeg'', img_quality = 0.9, img_width = 856,
                img_height = 540, img_painted = p\<rparr>"
    and q: "capturedImage (captureImage_part000 False sample_streaming) =
          Some \<lparr>img_type = ''image/jpeg'', img_quality = 0.9, img_width = 856,
                img_height = 540, img_painted = q\<rparr>"
    by blast
  have "p = Some (overlay_region 600 338 1920 1080)"
    using p sample_preview_eq by (simp add: sample_preview_def)
  moreover have "q = Some (centred_card_region 1920 1080)"
    using q sample_preview_part000_eq
    by (simp add: sample_preview_part000_def sample_streaming_part000_eq)
  ultimately show ?thesis using 1 p q by simp
qed

text \<open>
  Claim C4, as amended. In \<^verbatim>\<open>components/ImageUploader.jsx\<close>, for every displayed size with
  a positive width and height and every native size, the capture draws exactly the
  overlay rectangle (centred on the displayed video, 0.8 of the displayed width wide and
  that width over 1.586 high) with its x and width scaled by
  \<open>videoWidth / displayWidth\<close> and its y and height by \<open>videoHeight / displayHeight\<close>, onto
  the cleared 856 by 540 canvas: a tenth of the frame in from the left, four fifths of
  it wide, centred in the frame. With a displayed width or height of zero the scale is
  not finite and nothing is drawn. The second copy does not use the overlay or the
  displayed size: it draws the largest centred rectangle of ratio 1.586 of the frame.
\<close>

theorem capture_region:
  assumes "videoRef st = Some v" "canvasRef st = Some c" "readyState v = HAVE_ENOUGH_DATA"
    "videoWidth v = Some W" "videoHeight v = Some H" "0 < W" "0 < H"
  shows "(0 < clientWidth v \<and> 0 < clientHeight v \<longrightarrow>
            canvasRef (captureImage False st) =
              Some \<lparr>width = 856, height = 540,
                    painted = Some (overlay_region (real (clientWidth v)) (real (clientHeight v))
                                      (real W) (real H))\<rparr> \<and>
            sx (overlay_region (real (clientWidth v)) (real (clientHeight v)) (real W) (real H)) =
              real W / 10 \<and>
            sWidth (overlay_region (real (clientWidth v)) (real (clientHeight v)) (real W) (real H)) =
              4 * real W / 5 \<and>
            sy (overlay_region (real (clientWidth v)) (real (clientHeight v)) (real W) (real H)) +
            sHeight (overlay_region (real (clientWidth v)) (real (clientHeight v)) (real W) (real H)) / 2 =
              real H / 2) \<and>
         (clientWidth v = 0 \<or> clientHeight v = 0 \<longrightarrow>
            canvasRef (captureImage False st) = Some \<lparr>width = 856, height = 540, painted = None\<rparr>) \<and>
         canvasRef (captureImage_part000 False st) =
           Some \<lparr>width = 856, height = 540,
                 painted = Some (centred_card_region (real W) (real H))\<rparr>"
proof (intro conjI impI)
  assume p: "0 < clientWidth v \<and> 0 < clientHeight v"
  then have cw: "0 < clientWidth v" and ch: "0 < clientHeight v" by simp_all
  show "canvasRef (captureImage False st) =
              Some \<lparr>width = 856, height = 540,
                    painted = Some (overlay_region (real (clientWidth v)) (real (clientHeight v))
                                      (real W) (real H))\<rparr>"
  proof -
    have "captureImage False st =
      (let c2 = (resize c)\<lparr>painted := Some (overlay_region (real (clientWidth v))
                                    (real (clientHeight v)) (real W) (real H))\<rparr>
       in st\<lparr>canvasRef := Some c2, capturedImage := Some (encode c2 ''image/jpeg'' 0.9),
             showPreview := True, videoRef := None\<rparr>)"
      unfolding captureImage_ready[OF assms] overlay_args[OF cw ch assms(6,7)] ..
    then show ?thesis by (simp add: Let_def resize_def)
  qed
  show "sx (overlay_region (real (clientWidth v)) (real (clientHeight v)) (real W) (real H)) =
              real W / 10"
    using cw by (simp add: overlay_region_def field_simps)
  show "sWidth (overlay_region (real (clientWidth v)) (real (clientHeight v)) (real W) (real H)) =
              4 * real W / 5"
    using cw by (simp add: overlay_region_def field_simps)
  show "sy (overlay_region (real (clientWidth v)) (real (clientHeight v)) (real W) (real H)) +
            sHeight (overlay_region (real (clientWidth v)) (real (clientHeight v)) (real W) (real H)) / 2 =
              real H / 2"
    using ch by (simp add: overlay_region_def field_simps)
next
  assume "clientWidth v = 0 \<or> clientHeight v = 0"
  then have "captureImage False st =
      (let c2 = resize c
       in st\<lparr>canvasRef := Some c2, capturedImage := Some (encode c2 ''image/jpeg'' 0.9),
             showPreview := True, videoRef := None\<rparr>)"
    unfolding captureImage_ready[OF assms] by (simp only: overlay_args_zero)
  then show "canvasRef (captureImage False st) = Some \<lparr>width = 856, height = 540, painted = None\<rparr>"
    by (simp add: Let_def resize_def)
next
  show "canvasRef (captureImage_part000 False st) =
           Some \<lparr>width = 856, height = 540,
                 painted = Some (centred_card_region (real W) (real H))\<rparr>"
    by (simp add: captureImage_part000_ready[OF assms] Let_def resize_def)
qed

lemma sample_no_layout_eq:
  "sample_no_layout =
     \<lparr>isStreaming = True, cam_error = None, capturedImage = None, showPreview = False,
      videoRef = Some \<lparr>srcObject = Some [0], readyState = 4, videoWidth = Some 1920,
                        videoHeight = Some 1080, clientWidth = 0, clientHeight = 0\<rparr>,
      canvasRef = Some \<lparr>width = 300, height = 150, painted = None\<rparr>,
      timers = [], blob_requests = [], live = [0], effects = []\<rparr>"
  by (simp add: sample_no_layout_def video_reports_def loadedmetadata_def stream_resolved_def
      open_camera_def startCamera_def mounted_def commit_def new_video_def Let_def)

theorem capture_region_witness:
  "canvasRef (captureImage False sample_no_layout) =
     Some \<lparr>width = 856, height = 540, painted = None\<rparr> \<and>
   canvasRef (captureImage False sample_streaming) =
     Some \<lparr>width = 856, height = 540,
           painted = Some \<lparr>sx = 192, sy = 7569180 / 134017, sWidth = 1536,
                            sHeight = 129600000 / 134017, dx = 0, dy = 0, dWidth = 856,
                            dHeight = 540\<rparr>\<rparr> \<and>
   canvasRef (captureImage_part000 False sample_streaming) =
     Some \<lparr>width = 856, height = 540,
           painted = Some \<lparr>sx = 2589 / 25, sy = 0, sWidth = 42822 / 25, sHeight = 1080,
                            dx = 0, dy = 0, dWidth = 856, dHeight = 540\<rparr>\<rparr>"
proof -
  let ?v = "\<lparr>srcObject = Some [0], readyState = 4, videoWidth = Some 1920,
           videoHeight = Some 1080, clientWidth = 600, clientHeight = 338\<rparr>"
  let ?c = "\<lparr>width = 300, height = 150, painted = None\<rparr>"
  have 1: "videoRef sample_streaming = Some ?v" by (simp add: sample_streaming_eq)
  have 2: "canvasRef sample_streaming = Some ?c" by (simp add: sample_streaming_eq)
  have 3: "readyState ?v = HAVE_ENOUGH_DATA" by (simp add: HAVE_ENOUGH_DATA_def)
  have 4: "videoWidth ?v = Some 1920" "videoHeight ?v = Some 1080" by simp_all
  have 5: "(0::nat) < 1920" "(0::nat) < 1080" by simp_all
  have 6: "0 < clientWidth ?v \<and> 0 < clientHeight ?v" by simp
  have o: "overlay_region (real (600::nat)) (real (338::nat)) (real (1920::nat)) (real (1080::nat)) =
           \<lparr>sx = 192, sy = 7569180 / 134017, sWidth = 1536,
            sHeight = 129600000 / 134017, dx = 0, dy = 0, dWidth = 856, dHeight = 540\<rparr>"
    by (simp add: overlay_region_def)
  have k: "centred_card_region (real (1920::nat)) (real (1080::nat)) =
           \<lparr>sx = 2589 / 25, sy = 0, sWidth = 42822 / 25, sHeight = 1080,
            dx = 0, dy = 0, dWidth = 856, dHeight = 540\<rparr>"
    by (simp add: centred_card_region_def)
  let ?v0 = "\<lparr>srcObject = Some [0], readyState = 4, videoWidth = Some 1920,
           videoHeight = Some 1080, clientWidth = 0, clientHeight = 0\<rparr>"
  have 7: "videoRef sample_no_layout = Some ?v0" by (simp add: sample_no_layout_eq)
  have 8: "canvasRef sample_no_layout = Some ?c" by (simp add: sample_no_layout_eq)
  have 9: "readyState ?v0 = HAVE_ENOUGH_DATA" by (simp add: HAVE_ENOUGH_DATA_def)
  have 10: "videoWidth ?v0 = Some 1920" "videoHeight ?v0 = Some 1080" by simp_all
  have 11: "clientWidth ?v0 = 0 \<or> clientHeight ?v0 = 0" by simp
  from capture_region[OF 7 8 9 10 5] 11
  have z: "canvasRef (captureImage False sample_no_layout) =
     Some \<lparr>width = 856, height = 540, painted = None\<rparr>" by blast
  from capture_region[OF 1 2 3 4 5] 6 o k z show ?thesis by simp
qed

text \<open>
  The claim as first stated fails on the second copy: for frames of 1920 by 1080 shown at
  600 by 338 it draws the region at x = 103.56 of width 1712.88 and the full height,
  not the mapped overlay at x = 192 of width 1536.
\<close>

theorem capture_region_part000_differs:
  "canvasRef (captureImage_part000 False sample_streaming_part000) =
     Some \<lparr>width = 856, height = 540,
           painted = Some \<lparr>sx = 2589 / 25, sy = 0, sWidth = 42822 / 25, sHeight = 1080,
                            dx = 0, dy = 0, dWidth = 856, dHeight = 540\<rparr>\<rparr> \<and>
   overlay_region 600 338 1920 1080 =
     \<lparr>sx = 192, sy = 7569180 / 134017, sWidth = 1536, sHeight = 129600000 / 134017,
      dx = 0, dy = 0, dWidth = 856, dHeight = 540\<rparr> \<and>
   canvasRef (captureImage_part000 False sample_streaming_part000) \<noteq>
     Some \<lparr>width = 856, height = 540, painted = Some (overlay_region 600 338 1920 1080)\<rparr>"
proof -
  have a: "canvasRef (captureImage_part000 False sample_streaming_part000) =
     Some \<lparr>width = 856, height = 540,
           painted = Some \<lparr>sx = 2589 / 25, sy = 0, sWidth = 42822 / 25, sHeight = 1080,
                            dx = 0, dy = 0, dWidth = 856, dHeight = 540\<rparr>\<rparr>"
    using sample_preview_part000_eq
    by (simp add: sample_preview_part000_def centred_card_region_def)
  have b: "overlay_region 600 338 1920 1080 =
     \<lparr>sx = 192, sy = 7569180 / 134017, sWidth = 1536, sHeight = 129600000 / 134017,
      dx = 0, dy = 0, dWidth = 856, dHeight = 540\<rparr>"
    by (simp add: overlay_region_def)
  from a b show ?thesis by simp
qed

section \<open>A capture trigger on a video that is not ready\<close>

text \<open>
  Claim C5, as amended. A capture trigger issued while the video reports less than
  \<^verbatim>\<open>HAVE_ENOUGH_DATA\<close> produces no image and enters no error state in either copy. In
  \<^verbatim>\<open>components/ImageUploader.jsx\<close> it changes nothing at all and schedules nothing: a new
  capture needs a new trigger. In the second copy it schedules \<^verbatim>\<open>captureImage\<close> again
  after 100 ms, and the timer, when it fires, runs the same capture trigger.
\<close>

theorem capture_when_not_ready:
  "(videoRef st = Some v \<and> readyState v \<noteq> HAVE_ENOUGH_DATA \<longrightarrow> captureImage throws st = st) \<and>
   (videoRef st = Some v \<and> canvasRef st = Some c \<and> readyState v \<noteq> HAVE_ENOUGH_DATA \<longrightarrow>
      captureImage_part000 throws st = st\<lparr>timers := timers st @ [(CaptureImage, 100)]\<rparr> \<and>
      capturedImage (captureImage_part000 throws st) = capturedImage st \<and>
      cam_error (captureImage_part000 throws st) = cam_error st \<and>
      (timers st = [] \<longrightarrow>
         timer_fired throws (captureImage_part000 throws st) = captureImage_part000 throws st))"
proof (intro conjI impI)
  assume "videoRef st = Some v \<and> readyState v \<noteq> HAVE_ENOUGH_DATA"
  then show "captureImage throws st = st"
    by (simp add: captureImage_def split: option.splits)
next
  assume a: "videoRef st = Some v \<and> canvasRef st = Some c \<and> readyState v \<noteq> HAVE_ENOUGH_DATA"
  then show e: "captureImage_part000 throws st = st\<lparr>timers := timers st @ [(CaptureImage, 100)]\<rparr>"
    by (simp add: captureImage_part000_def)
  show "capturedImage (captureImage_part000 throws st) = capturedImage st"
    by (simp add: e)
  show "cam_error (captureImage_part000 throws st) = cam_error st"
    by (simp add: e)
  assume t: "timers st = []"
  then have "st\<lparr>timers := []\<rparr> = st" by simp
  then have "timer_fired throws (st\<lparr>timers := [(CaptureImage, 100)]\<rparr>) =
             captureImage_part000 throws st"
    by (simp add: timer_fired_def)
  then show "timer_fired throws (captureImage_part000 throws st) = captureImage_part000 throws st"
    using t by (simp add: e)
qed

lemma sample_not_ready_eq:
  "sample_not_ready =
     \<lparr>isStreaming = True, cam_error = None, capturedImage = None, showPreview = False,
      videoRef = Some \<lparr>srcObject = Some [0], readyState = 2, videoWidth = Some 1920,
                        videoHeight = Some 1080, clientWidth = 600, clientHeight = 338\<rparr>,
      canvasRef = Some \<lparr>width = 300, height = 150, painted = None\<rparr>,
      timers = [], blob_requests = [], live = [0], effects = []\<rparr>"
  by (simp add: sample_not_ready_def video_reports_def loadedmetadata_def stream_resolved_def
      open_camera_def startCamera_def mounted_def commit_def new_video_def Let_def)

lemma sample_not_ready_part000_eq: "sample_not_ready_part000 = sample_not_ready"
  by (simp add: sample_not_ready_eq sample_not_ready_part000_def video_reports_def
      loadedmetadata_part000_def stream_resolved_def open_camera_part000_def
      startCamera_part000_def mounted_def commit_def new_video_def Let_def)

theorem capture_when_not_ready_witness:
  "readyState \<lparr>srcObject = Some [0], readyState = 2, videoWidth = Some 1920,
               videoHeight = Some 1080, clientWidth = 600, clientHeight = 338\<rparr> \<noteq> HAVE_ENOUGH_DATA \<and>
   captureImage False sample_not_ready = sample_not_ready \<and>
   captureImage_part000 False sample_not_ready =
     sample_not_ready\<lparr>timers := [(CaptureImage, 100)]\<rparr> \<and>
   timer_fired False (captureImage_part000 False sample_not_ready) =
     captureImage_part000 False sample_not_ready"
proof -
  let ?v = "\<lparr>srcObject = Some [0], readyState = 2, videoWidth = Some 1920,
               videoHeight = Some 1080, clientWidth = 600, clientHeight = 338\<rparr>"
  let ?c = "\<lparr>width = 300, height = 150, painted = None\<rparr>"
  have 1: "videoRef sample_not_ready = Some ?v" by (simp add: sample_not_ready_eq)
  have 2: "canvasRef sample_not_ready = Some ?c" by (simp add: sample_not_ready_eq)
  have 3: "readyState ?v \<noteq> HAVE_ENOUGH_DATA" by (simp add: HAVE_ENOUGH_DATA_def)
  have 4: "timers sample_not_ready = []" by (simp add: sample_not_ready_eq)
  from capture_when_not_ready[of sample_not_ready ?v False ?c] 1 3
  have A: "captureImage False sample_not_ready = sample_not_ready" by blast
  from capture_when_not_ready[of sample_not_ready ?v False ?c] 1 2 3 4
  have B: "captureImage_part000 False sample_not_ready =
             sample_not_ready\<lparr>timers := timers sample_not_ready @ [(CaptureImage, 100)]\<rparr>"
    and C: "timer_fired False (captureImage_part000 False sample_not_ready) =
             captureImage_part000 False sample_not_ready"
    by blast+
  from B 4 have B': "captureImage_part000 False sample_not_ready =
             sample_not_ready\<lparr>timers := [(CaptureImage, 100)]\<rparr>" by simp
  from 3 A B' C show ?thesis by (intro conjI)
qed

text \<open>
  The claim as first stated fails on the second copy: the trigger on the video that is
  not ready leaves a timer for \<^verbatim>\<open>captureImage\<close> behind.
\<close>

theorem capture_retry_part000:
  "timers sample_not_ready_part000 = [] \<and>
   timers (captureImage_part000 False sample_not_ready_part000) = [(CaptureImage, 100)]"
  by (simp add: sample_not_ready_part000_eq sample_not_ready_eq captureImage_part000_def
      HAVE_ENOUGH_DATA_def)

section \<open>Releasing the camera\<close>

lemma effects_stop_tracks: "effects (stop_tracks ts st) = effects st @ map Stopped ts"
  unfolding stop_tracks_def
  by (induction ts arbitrary: st) (simp_all add: stop_track_def)

lemma live_stop_tracks: "live (stop_tracks ts st) = filter (\<lambda>t. t \<notin> set ts) (live st)"
  unfolding stop_tracks_def
proof (induction ts arbitrary: st)
  case Nil
  then show ?case by simp
next
  case (Cons t ts)
  have "live (foldl stop_track st (t # ts)) = live (foldl stop_track (stop_track st t) ts)"
    by simp
  also have "\<dots> = filter (\<lambda>x. x \<notin> set ts) (live (stop_track st t))"
    by (rule Cons.IH)
  also have "\<dots> = filter (\<lambda>x. x \<notin> set (t # ts)) (live st)"
    by (auto simp: stop_track_def removeAll_filter_not_eq intro!: filter_cong)
  finally show ?case .
qed

lemma commit_hides_video:
  "showPreview st \<or> cam_error st \<noteq> None \<Longrightarrow> videoRef (commit st) = None"
  by (auto simp: commit_def)

text \<open>With the stream attached to the rendered video element, closing stops every track
  of that stream, in order, before the closure signal; if these are all the live tracks,
  none is left.\<close>

lemma handleClose_attached:
  assumes "videoRef st = Some v" "srcObject v = Some ts"
  shows "effects (handleClose st) = effects st @ map Stopped ts @ [Closed]"
    and "live (handleClose st) = filter (\<lambda>t. t \<notin> set ts) (live st)"
    and "set (live st) \<subseteq> set ts \<Longrightarrow> live (handleClose st) = []"
proof -
  show "effects (handleClose st) = effects st @ map Stopped ts @ [Closed]"
    using assms by (simp add: handleClose_def stopCamera_def Let_def effects_stop_tracks)
  show l: "live (handleClose st) = filter (\<lambda>t. t \<notin> set ts) (live st)"
    using assms by (simp add: handleClose_def stopCamera_def Let_def live_stop_tracks)
  assume "set (live st) \<subseteq> set ts"
  then show "live (handleClose st) = []"
    unfolding l by (auto simp: filter_empty_conv)
qed

text \<open>Without a rendered video element (the preview view and the error view), closing
  stops nothing.\<close>

lemma handleClose_detached:
  assumes "videoRef st = None"
  shows "handleClose st = st\<lparr>effects := effects st @ [Closed]\<rparr>"
  using assms by (simp add: handleClose_def stopCamera_def)

lemma cancel_with_video_hidden:
  assumes "flow_state_of st = Previewing \<or> flow_state_of st = Failed"
  shows "live (handleClose (commit st)) = live st \<and>
         effects (handleClose (commit st)) = effects st @ [Closed]"
proof -
  from assms have h: "showPreview st \<or> cam_error st \<noteq> None"
    by (auto simp: flow_state_of_def split: if_splits)
  then have "videoRef (commit st) = None" by (rule commit_hides_video)
  then have "handleClose (commit st) = (commit st)\<lparr>effects := effects (commit st) @ [Closed]\<rparr>"
    by (rule handleClose_detached)
  moreover have "live (commit st) = live st" "effects (commit st) = effects st"
    using h by (auto simp: commit_def)
  ultimately show ?thesis by simp
qed

lemma sample_play_failed_eq:
  "sample_play_failed =
     \<lparr>isStreaming = False, cam_error = Some ''Unable to start camera.'', capturedImage = None,
      showPreview = False, videoRef = None,
      canvasRef = Some \<lparr>width = 300, height = 150, painted = None\<rparr>,
      timers = [], blob_requests = [], live = [0], effects = []\<rparr>"
  by (simp add: sample_play_failed_def loadedmetadata_def stream_resolved_def
      open_camera_def startCamera_def mounted_def commit_def new_video_def Let_def)

text \<open>
  Claim C7 at concrete inputs. In the sample session the still is captured and the flow
  shows the preview; the video element is not rendered in that view, so the ref is null,
  \<^verbatim>\<open>stopCamera\<close> finds nothing to stop, and cancel delivers the closure signal while track
  0 is still live, in both copies. The same happens in the error view that follows a
  rejected \<^verbatim>\<open>play()\<close>. From the streaming view the same action stops the track first.
\<close>

theorem cancel_in_preview_keeps_track:
  "flow_state_of sample_preview = Previewing \<and>
   live sample_preview = [0] \<and>
   live (handleClose sample_preview) = [0] \<and>
   effects (handleClose sample_preview) = [Closed] \<and>
   flow_state_of sample_preview_part000 = Previewing \<and>
   live (handleClose sample_preview_part000) = [0] \<and>
   effects (handleClose sample_preview_part000) = [Closed] \<and>
   flow_state_of sample_play_failed = Failed \<and>
   live (handleClose sample_play_failed) = [0] \<and>
   effects (handleClose sample_play_failed) = [Closed] \<and>
   flow_state_of sample_streaming = Streaming \<and>
   live (handleClose sample_streaming) = [] \<and>
   effects (handleClose sample_streaming) = [Stopped 0, Closed]"
  by (simp add: sample_preview_eq sample_preview_part000_eq sample_play_failed_eq
      sample_streaming_eq flow_state_of_def handleClose_def stopCamera_def stop_tracks_def
      stop_track_def Let_def)

section \<open>Accepting and retaking the preview\<close>

lemma blob_type_jpeg: "blob_type ''image/jpeg'' = ''image/jpeg''"
  by code_simp

text \<open>Accepting a preview hands exactly one file to the caller, named after the time of
  the callback, and then calls \<^verbatim>\<open>stopCamera\<close>.\<close>

lemma accept_hands_one_file:
  assumes "capturedImage st = Some img" "canvasRef st = Some c" "blob_requests st = []"
  shows "blob_ready (Some b) now (confirmCapture st) =
           commit (stopCamera (st\<lparr>blob_requests := [], effects := effects st @
             [Captured \<lparr>file_name = ''cnic-'' @ show_nat now @ ''.jpg'',
                        file_type = ''image/jpeg'', file_bytes = b\<rparr>]\<rparr>))"
  using assms
  by (simp add: blob_ready_def confirmCapture_def new_File_def blob_type_jpeg Let_def)

lemma confirmCapture_without_still: "capturedImage st = None \<Longrightarrow> confirmCapture st = st"
  by (simp add: confirmCapture_def)

lemma retake_discards:
  "capturedImage (retakePhoto st) = None \<and> \<not> showPreview (retakePhoto st) \<and>
   effects (retakePhoto st) = effects st \<and> live (retakePhoto st) = live st \<and>
   timers (retakePhoto st) = timers st @ [(StartCamera, 100)] \<and>
   capturedImage (retakePhoto_part000 st) = None \<and> \<not> showPreview (retakePhoto_part000 st) \<and>
   effects (retakePhoto_part000 st) = effects st \<and> live (retakePhoto_part000 st) = live st \<and>
   timers (retakePhoto_part000 st) = timers st"
  by (simp add: retakePhoto_def retakePhoto_part000_def commit_def split: option.splits)

lemma show_nat_sample: "show_nat 1752825492000 = ''1752825492000''"
  by (simp add: show_nat.simps digit_def)

lemma accept_sample:
  "blob_ready (Some [255, 216, 255]) 1752825492000 (confirmCapture sample_preview) =
     sample_preview\<lparr>effects :=
       [Captured \<lparr>file_name = ''cnic-1752825492000.jpg'', file_type = ''image/jpeg'',
                  file_bytes = [255, 216, 255]\<rparr>]\<rparr>"
  by (simp add: sample_preview_eq blob_ready_def confirmCapture_def new_File_def
      blob_type_jpeg show_nat_sample encode_def commit_def stopCamera_def Let_def)

lemma accept_sample_part000:
  "blob_ready (Some [255, 216, 255]) 1752825492000 (confirmCapture sample_preview_part000) =
     sample_preview_part000\<lparr>effects :=
       [Captured \<lparr>file_name = ''cnic-1752825492000.jpg'', file_type = ''image/jpeg'',
                  file_bytes = [255, 216, 255]\<rparr>]\<rparr>"
  by (simp add: sample_preview_part000_eq blob_ready_def confirmCapture_def new_File_def
      blob_type_jpeg show_nat_sample encode_def commit_def stopCamera_def Let_def)

lemma retake_sample:
  "retakePhoto sample_preview =
     \<lparr>isStreaming = True, cam_error = None, capturedImage = None, showPreview = False,
      videoRef = Some new_video,
      canvasRef = Some \<lparr>width = 856, height = 540,
                         painted = Some (overlay_region 600 338 1920 1080)\<rparr>,
      timers = [(StartCamera, 100)], blob_requests = [], live = [0], effects = []\<rparr>"
  by (simp add: sample_preview_eq retakePhoto_def commit_def)

lemma restart_sample:
  "timer_fired False (retakePhoto sample_preview) =
     \<lparr>isStreaming = False, cam_error = None, capturedImage = None, showPreview = False,
      videoRef = Some new_video,
      canvasRef = Some \<lparr>width = 856, height = 540,
                         painted = Some (overlay_region 600 338 1920 1080)\<rparr>,
      timers = [], blob_requests = [], live = [0], effects = []\<rparr>"
  by (simp only: retake_sample)
     (simp add: timer_fired_def startCamera_def commit_def new_video_def Let_def)

lemma retake_sample_part000:
  "retakePhoto_part000 sample_preview_part000 =
     \<lparr>isStreaming = True, cam_error = None, capturedImage = None, showPreview = False,
      videoRef = Some new_video,
      canvasRef = Some \<lparr>width = 856, height = 540,
                         painted = Some (centred_card_region 1920 1080)\<rparr>,
      timers = [], blob_requests = [], live = [0], effects = []\<rparr>"
  by (simp add: sample_preview_part000_eq retakePhoto_part000_def commit_def)

text \<open>
  Claim C8 at a concrete input: the preview of the sample session. Accepting hands one
  file \<^verbatim>\<open>cnic-1752825492000.jpg\<close> of type \<^verbatim>\<open>image/jpeg\<close> to the caller, but the
  \<^verbatim>\<open>stopCamera\<close> that follows finds no video element and track 0 stays live, in both
  copies. Retaking discards the still without a closure signal; in
  \<^verbatim>\<open>components/ImageUploader.jsx\<close> it sets a timer that restarts the camera, which then
  acquires a second stream while track 0 is still live; in the second copy nothing
  restarts the camera and the new video element has no stream.
\<close>

theorem accept_keeps_track:
  "effects (blob_ready (Some [255, 216, 255]) 1752825492000 (confirmCapture sample_preview)) =
     [Captured \<lparr>file_name = ''cnic-1752825492000.jpg'', file_type = ''image/jpeg'',
                file_bytes = [255, 216, 255]\<rparr>] \<and>
   live (blob_ready (Some [255, 216, 255]) 1752825492000 (confirmCapture sample_preview)) = [0] \<and>
   effects (blob_ready (Some [255, 216, 255]) 1752825492000
              (confirmCapture sample_preview_part000)) =
     [Captured \<lparr>file_name = ''cnic-1752825492000.jpg'', file_type = ''image/jpeg'',
                file_bytes = [255, 216, 255]\<rparr>] \<and>
   live (blob_ready (Some [255, 216, 255]) 1752825492000
           (confirmCapture sample_preview_part000)) = [0] \<and>
   capturedImage (retakePhoto sample_preview) = None \<and>
   flow_state_of (retakePhoto sample_preview) = Streaming \<and>
   effects (retakePhoto sample_preview) = [] \<and>
   timers (retakePhoto sample_preview) = [(StartCamera, 100)] \<and>
   live (stream_resolved [1] (timer_fired False (retakePhoto sample_preview))) = [0, 1] \<and>
   capturedImage (retakePhoto_part000 sample_preview_part000) = None \<and>
   flow_state_of (retakePhoto_part000 sample_preview_part000) = Streaming \<and>
   videoRef (retakePhoto_part000 sample_preview_part000) = Some new_video \<and>
   srcObject new_video = None \<and>
   timers (retakePhoto_part000 sample_preview_part000) = []"
proof -
  have 1: "live sample_preview = [0]" "live sample_preview_part000 = [0]"
    by (simp_all add: sample_preview_eq sample_preview_part000_eq)
  have 2: "live (stream_resolved [1] (timer_fired False (retakePhoto sample_preview))) = [0, 1]"
    by (simp only: restart_sample) (simp add: stream_resolved_def)
  have 3: "capturedImage (retakePhoto sample_preview) = None \<and>
           flow_state_of (retakePhoto sample_preview) = Streaming \<and>
           effects (retakePhoto sample_preview) = [] \<and>
           timers (retakePhoto sample_preview) = [(StartCamera, 100)]"
    by (simp only: retake_sample) (simp add: flow_state_of_def)
  have 4: "capturedImage (retakePhoto_part000 sample_preview_part000) = None \<and>
           flow_state_of (retakePhoto_part000 sample_preview_part000) = Streaming \<and>
           videoRef (retakePhoto_part000 sample_preview_part000) = Some new_video \<and>
           srcObject new_video = None \<and>
           timers (retakePhoto_part000 sample_preview_part000) = []"
    by (simp only: retake_sample_part000) (simp add: flow_state_of_def new_video_def)
  have 5: "effects (blob_ready (Some [255, 216, 255]) 1752825492000 (confirmCapture sample_preview)) =
     [Captured \<lparr>file_name = ''cnic-1752825492000.jpg'', file_type = ''image/jpeg'',
                file_bytes = [255, 216, 255]\<rparr>] \<and>
     live (blob_ready (Some [255, 216, 255]) 1752825492000 (confirmCapture sample_preview)) = [0]"
    by (simp only: accept_sample) (simp add: 1)
  have 6: "effects (blob_ready (Some [255, 216, 255]) 1752825492000
              (confirmCapture sample_preview_part000)) =
     [Captured \<lparr>file_name = ''cnic-1752825492000.jpg'', file_type = ''image/jpeg'',
                file_bytes = [255, 216, 255]\<rparr>] \<and>
     live (blob_ready (Some [255, 216, 255]) 1752825492000
           (confirmCapture sample_preview_part000)) = [0]"
    by (simp only: accept_sample_part000) (simp add: 1)
  from 2 3 4 5 6 show ?thesis by blast
qed

end
